theory Spec2Isabelle
  imports Main
begin

section \<open>Python strings\<close>

text \<open>
  A Python \<open>str\<close> is a sequence of Unicode code points. The ticket titles of this program
  contain Japanese text, so a character is modelled by its code point (a natural number)
  and not by an 8-bit \<open>char\<close>. \<open>ustr\<close> turns an ASCII literal into such a string.
\<close>

type_synonym codepoint = nat
type_synonym pystr = "codepoint list"

definition ustr :: "string \<Rightarrow> pystr" where
  "ustr s = map of_char s"

text \<open>
  \<open>str.isspace\<close> for one character: the code points Python counts as whitespace
  (\<open>str.strip()\<close> without arguments removes exactly these).
\<close>

definition is_space :: "codepoint \<Rightarrow> bool" where
  "is_space c =
     ((9 \<le> c \<and> c \<le> 13) \<or> (28 \<le> c \<and> c \<le> 32) \<or> c = 133 \<or> c = 160 \<or> c = 5760 \<or>
      (8192 \<le> c \<and> c \<le> 8202) \<or> c = 8232 \<or> c = 8233 \<or> c = 8239 \<or> c = 8287 \<or> c = 12288)"

definition lstrip :: "pystr \<Rightarrow> pystr" where
  "lstrip s = dropWhile is_space s"

definition rstrip :: "pystr \<Rightarrow> pystr" where
  "rstrip s = rev (dropWhile is_space (rev s))"

definition strip :: "pystr \<Rightarrow> pystr" where
  "strip s = rstrip (lstrip s)"


section \<open>The two title patterns\<close>

text \<open>
  \<open>parse_ticket_title\<close> matches the stripped title against
  \<^verbatim>\<open>^\[([^\]]+)\]\[([^\]]+)\](.+)$\<close> and then against \<^verbatim>\<open>^\[([^\]]+)\](.+)$\<close>
  with \<open>re.match\<close>. The matchers below are these two patterns written out.

  \<^item> \<^verbatim>\<open>\[([^\]]+)\]\<close>: an opening bracket (91), one or more characters other than the
    closing bracket (93), and a closing bracket. The group cannot contain a closing bracket
    and has to be followed by one, so it ends at the first closing bracket: the greedy
    \<open>+\<close> has nothing to give back.
  \<^item> \<^verbatim>\<open>(.+)$\<close>: one or more characters other than the line feed (10), up to the end of
    the string or to a line feed that is the last character of the string (no flag is
    passed, so \<open>.\<close> excludes the line feed and \<open>$\<close> also matches before a final one).
\<close>

definition bracket_group :: "pystr \<Rightarrow> (pystr \<times> pystr) option" where
  "bracket_group s =
     (case s of
        [] \<Rightarrow> None
      | c # s' \<Rightarrow>
          if c \<noteq> 91 then None
          else (let g = takeWhile (\<lambda>x. x \<noteq> 93) s';
                    rest = dropWhile (\<lambda>x. x \<noteq> 93) s'
                in if g = [] then None
                   else (case rest of [] \<Rightarrow> None | _ # rest' \<Rightarrow> Some (g, rest'))))"

definition dot_plus_end :: "pystr \<Rightarrow> pystr option" where
  "dot_plus_end s =
     (let g = takeWhile (\<lambda>x. x \<noteq> 10) s;
          rest = dropWhile (\<lambda>x. x \<noteq> 10) s
      in if g \<noteq> [] \<and> (rest = [] \<or> rest = [10]) then Some g else None)"

definition re_match_pattern3 :: "pystr \<Rightarrow> (pystr \<times> pystr \<times> pystr) option" where
  "re_match_pattern3 s =
     (case bracket_group s of
        None \<Rightarrow> None
      | Some (g1, s1) \<Rightarrow>
          (case bracket_group s1 of
             None \<Rightarrow> None
           | Some (g2, s2) \<Rightarrow>
               (case dot_plus_end s2 of
                  None \<Rightarrow> None
                | Some g3 \<Rightarrow> Some (g1, g2, g3))))"

definition re_match_pattern2 :: "pystr \<Rightarrow> (pystr \<times> pystr) option" where
  "re_match_pattern2 s =
     (case bracket_group s of
        None \<Rightarrow> None
      | Some (g1, s1) \<Rightarrow>
          (case dot_plus_end s1 of
             None \<Rightarrow> None
           | Some g2 \<Rightarrow> Some (g1, g2)))"


section \<open>RedmineFileOrganizer.parse_ticket_title\<close>

text \<open>The dictionary the function returns; \<open>folder3\<close> is \<open>None\<close> in a 2-level result.\<close>

record labels =
  folder1 :: pystr
  folder2 :: pystr
  folder3 :: "pystr option"
  levels :: int

definition parse_ticket_title :: "pystr \<Rightarrow> labels option" where
  "parse_ticket_title title =
     (case re_match_pattern3 (strip title) of
        Some (g1, g2, g3) \<Rightarrow>
          Some \<lparr>folder1 = g1, folder2 = g2, folder3 = Some (strip g3), levels = 3\<rparr>
      | None \<Rightarrow>
          (case re_match_pattern2 (strip title) of
             Some (g1, g2) \<Rightarrow>
               Some \<lparr>folder1 = g1, folder2 = strip g2, folder3 = None, levels = 2\<rparr>
           | None \<Rightarrow> None))"

text \<open>
  The grammar of the specification, stated on its own: \<open>"[" seg1 "][" seg2 "]" rest\<close> and
  \<open>"[" seg1 "]" rest\<close>, with bracketed segments that are not empty and hold no closing
  bracket, and a remainder that is not empty and stays on one line.
\<close>

definition bracket_text :: "pystr \<Rightarrow> bool" where
  "bracket_text a = (a \<noteq> [] \<and> 93 \<notin> set a)"

definition remainder_text :: "pystr \<Rightarrow> bool" where
  "remainder_text r = (r \<noteq> [] \<and> 10 \<notin> set r)"

definition title3 :: "pystr \<Rightarrow> pystr \<Rightarrow> pystr \<Rightarrow> pystr \<Rightarrow> bool" where
  "title3 s a b r =
     (s = [91] @ a @ [93, 91] @ b @ [93] @ r \<and> bracket_text a \<and> bracket_text b \<and> remainder_text r)"

definition title2 :: "pystr \<Rightarrow> pystr \<Rightarrow> pystr \<Rightarrow> bool" where
  "title2 s a r = (s = [91] @ a @ [93] @ r \<and> bracket_text a \<and> remainder_text r)"


section \<open>Dates\<close>

text \<open>
  A \<open>datetime\<close> value: the local calendar time that \<open>datetime.now()\<close> and
  \<open>datetime.fromtimestamp(os.path.getmtime(p))\<close> return. Python keeps the year within
  1..9999 and the other fields within their calendar ranges, so each \<open>strftime\<close> field
  has its fixed width: \<open>zero_pad w n\<close> writes the last \<open>w\<close> decimal digits of \<open>n\<close>.
\<close>

record datetime =
  year :: nat
  month :: nat
  day :: nat
  hour :: nat
  minute :: nat
  second :: nat

primrec zero_pad :: "nat \<Rightarrow> nat \<Rightarrow> pystr" where
  "zero_pad 0 n = []"
| "zero_pad (Suc w) n = zero_pad w (n div 10) @ [48 + n mod 10]"

definition strftime_Ymd :: "datetime \<Rightarrow> pystr" where
  "strftime_Ymd t = zero_pad 4 (year t) @ zero_pad 2 (month t) @ zero_pad 2 (day t)"

definition strftime_Ymd_HMS :: "datetime \<Rightarrow> pystr" where
  "strftime_Ymd_HMS t =
     strftime_Ymd t @ [95] @ zero_pad 2 (hour t) @ zero_pad 2 (minute t) @ zero_pad 2 (second t)"


section \<open>Paths\<close>

text \<open>
  The functions of \<open>os.path\<close> the program calls, in their POSIX form (separator \<open>/\<close>, code
  point 47; the extension separator \<open>.\<close> is 46), which is the form the specification
  writes its paths in.
\<close>

fun path_join :: "pystr \<Rightarrow> pystr list \<Rightarrow> pystr" where
  "path_join path [] = path"
| "path_join path (b # bs) =
     path_join
       (if b \<noteq> [] \<and> hd b = 47 then b
        else if path = [] \<or> last path = 47 then path @ b
        else path @ [47] @ b) bs"

text \<open>
  The layout the specification writes as \<open>base_root / seg1 / seg2 / YYYYMMDD\<close> is the base
  folder followed by a slash and a segment for each segment. \<open>os.path.join\<close> gives it for a
  base folder and segments of the following kind: not empty and without a slash at the
  end, and the segments without a slash at the start.
\<close>

definition plain_root :: "pystr \<Rightarrow> bool" where
  "plain_root b = (b \<noteq> [] \<and> last b \<noteq> 47)"

definition plain_segment :: "pystr \<Rightarrow> bool" where
  "plain_segment s = (s \<noteq> [] \<and> hd s \<noteq> 47 \<and> last s \<noteq> 47)"

definition basename :: "pystr \<Rightarrow> pystr" where
  "basename p = rev (takeWhile (\<lambda>c. c \<noteq> 47) (rev p))"

definition rfind :: "codepoint \<Rightarrow> pystr \<Rightarrow> int" where
  "rfind c p =
     (if c \<in> set p then int (length p) - 1 - int (length (takeWhile (\<lambda>x. x \<noteq> c) (rev p)))
      else - 1)"

text \<open>
  \<open>os.path.splitext\<close>: the extension starts at the last dot of the last component,
  unless that component has only dots before it.
\<close>

definition splitext :: "pystr \<Rightarrow> pystr \<times> pystr" where
  "splitext p =
     (let sepIndex = rfind 47 p; dotIndex = rfind 46 p
      in if dotIndex > sepIndex \<and>
            list_ex (\<lambda>c. c \<noteq> 46)
              (take (nat (dotIndex - (sepIndex + 1))) (drop (nat (sepIndex + 1)) p))
         then (take (nat dotIndex) p, drop (nat dotIndex) p)
         else (p, []))"


section \<open>Exceptions and the file system\<close>

text \<open>An exception is its class and the text \<open>str(e)\<close> gives.\<close>

datatype exc_class =
  TypeError | OSError | FileExistsError | FileNotFoundError | NotADirectoryError | ShutilError

datatype pyexc = Exc exc_class pystr

fun exc_str :: "pyexc \<Rightarrow> pystr" where
  "exc_str (Exc c m) = m"

text \<open>
  The file system as the program sees it: each path names at most one entry, a regular
  file with its modification time and content or a directory. A path names an entry by
  its spelling. The world also holds the wall clock and what the operating system will
  answer, from causes outside these entries (a denied permission, another device, a full
  disk), to \<open>os.makedirs\<close> and to the three steps \<open>shutil.move\<close> can take: the rename, the
  copy made where the rename is refused, and the removal of the source after the copy.
  A copy that raises says what it has left at the destination: nothing, when it could not
  open it, or the file it had written so far. The last field counts the \<open>shutil.move\<close>
  calls made.
\<close>

datatype node = File datetime pystr | Dir datetime

fun node_mtime :: "node \<Rightarrow> datetime" where
  "node_mtime (File t c) = t"
| "node_mtime (Dir t) = t"

record world =
  files :: "pystr \<rightharpoonup> node"
  now :: datetime
  makedirs_fault :: "pyexc option"
  rename_fault :: "pyexc option"
  copy_fault :: "(pyexc \<times> node option) option"
  unlink_fault :: "pyexc option"
  move_calls :: nat

definition path_exists :: "world \<Rightarrow> pystr \<Rightarrow> bool" where
  "path_exists w p = (files w p \<noteq> None)"

definition is_dir :: "world \<Rightarrow> pystr \<Rightarrow> bool" where
  "is_dir w p = (case files w p of Some (Dir t) \<Rightarrow> True | _ \<Rightarrow> False)"

definition is_file :: "world \<Rightarrow> pystr \<Rightarrow> bool" where
  "is_file w p = (case files w p of Some (File t c) \<Rightarrow> True | _ \<Rightarrow> False)"

definition getmtime :: "world \<Rightarrow> pystr \<Rightarrow> pyexc + datetime" where
  "getmtime w p =
     (case files w p of
        None \<Rightarrow> Inl (Exc FileNotFoundError (ustr ''[Errno 2] No such file or directory''))
      | Some n \<Rightarrow> Inr (node_mtime n))"


section \<open>RedmineFileOrganizer.build_target_path\<close>

text \<open>
  \<open>base_output_folder\<close> is the class attribute \<open>BASE_OUTPUT_FOLDER\<close>. The parsed title is
  \<open>None\<close> when the caller passes \<open>None\<close> (or an empty dictionary); \<open>file_path\<close> is optional.
  A dictionary with \<open>levels = 3\<close> and no third folder makes \<open>os.path.join\<close> raise.
\<close>

definition date_folder :: "world \<Rightarrow> pystr option \<Rightarrow> pyexc + pystr" where
  "date_folder w file_path =
     (case file_path of
        None \<Rightarrow> Inr (strftime_Ymd (now w))
      | Some p \<Rightarrow>
          if p \<noteq> [] \<and> path_exists w p
          then (case getmtime w p of Inl e \<Rightarrow> Inl e | Inr mtime \<Rightarrow> Inr (strftime_Ymd mtime))
          else Inr (strftime_Ymd (now w)))"

definition build_target_path ::
    "world \<Rightarrow> pystr \<Rightarrow> labels option \<Rightarrow> pystr option \<Rightarrow> pyexc + pystr option" where
  "build_target_path w base_output_folder parsed_title file_path =
     (case parsed_title of
        None \<Rightarrow> Inr None
      | Some pt \<Rightarrow>
          (case date_folder w file_path of
             Inl e \<Rightarrow> Inl e
           | Inr d \<Rightarrow>
               if levels pt = 3 then
                 (case folder3 pt of
                    None \<Rightarrow>
                      Inl (Exc TypeError
                        (ustr ''expected str, bytes or os.PathLike object, not NoneType''))
                  | Some f3 \<Rightarrow>
                      Inr (Some (path_join base_output_folder [folder1 pt, folder2 pt, f3, d])))
               else if levels pt = 2 then
                 Inr (Some (path_join base_output_folder [folder1 pt, folder2 pt, d]))
               else Inr None))"


text \<open>
  The scenario of the specification: a downloaded file last modified on 2024-03-05 at
  10:00, seen a day later.
\<close>

definition door_sensor_world :: world where
  "door_sensor_world =
     \<lparr>files = [ustr ''/downloads/photo.jpg'' \<mapsto>
                 File \<lparr>year = 2024, month = 3, day = 5, hour = 10, minute = 0, second = 0\<rparr>
                      (ustr ''jpeg'')],
      now = \<lparr>year = 2024, month = 3, day = 6, hour = 9, minute = 30, second = 0\<rparr>,
      makedirs_fault = None, rename_fault = None, copy_fault = None, unlink_fault = None,
      move_calls = 0\<rparr>"


section \<open>os.makedirs and shutil.move\<close>

text \<open>
  \<open>os.makedirs(d, exist_ok=True)\<close> creates \<open>d\<close> and every missing directory above it (the
  prefixes of \<open>d\<close> that end before a slash). It raises when the operating system refuses,
  when \<open>d\<close> is empty, when \<open>d\<close> is a regular file and when a path above \<open>d\<close> is one.
  It never changes an entry that exists.
\<close>

definition ancestors :: "pystr \<Rightarrow> pystr list" where
  "ancestors d =
     filter (\<lambda>a. a \<noteq> [] \<and> last a \<noteq> 47)
       (map (\<lambda>i. take i d) (filter (\<lambda>i. d ! i = 47) [0..<length d]))"

definition mkdir_missing :: "datetime \<Rightarrow> pystr \<Rightarrow> (pystr \<rightharpoonup> node) \<Rightarrow> (pystr \<rightharpoonup> node)" where
  "mkdir_missing t a f = (if f a = None then f(a \<mapsto> Dir t) else f)"

definition os_makedirs :: "world \<Rightarrow> pystr \<Rightarrow> pyexc + world" where
  "os_makedirs w d =
     (case makedirs_fault w of
        Some e \<Rightarrow> Inl e
      | None \<Rightarrow>
          if d = [] then
            Inl (Exc FileNotFoundError (ustr ''[Errno 2] No such file or directory''))
          else if is_file w d then
            Inl (Exc FileExistsError (ustr ''[Errno 17] File exists''))
          else if list_ex (is_file w) (ancestors d) then
            Inl (Exc NotADirectoryError (ustr ''[Errno 20] Not a directory''))
          else Inr (w\<lparr>files := foldr (mkdir_missing (now w)) (d # ancestors d) (files w)\<rparr>))"

text \<open>
  \<open>shutil.move(src, dst)\<close>. A destination that is a directory receives the source under
  the source's own name, and the call raises \<open>shutil.Error\<close> when that name is taken (moving
  a directory onto itself is a rename that changes nothing). Otherwise the source is
  renamed to the destination, which replaces a regular file there. Where the rename is
  refused, the source is copied to the destination and then removed: the copy replaces a
  regular file there too, and it can have done so before the call raises, when the copy
  breaks off or when the removal of the source is refused. A file is not copied onto
  itself, a directory does not replace a regular file and is not moved into itself.
  Every call is counted.

  A directory moves with the entries below it. (For a directory, a copy or a removal
  that raises part-way is shown as not begun; the program moves regular files.)
\<close>

definition rstrip_sep :: "pystr \<Rightarrow> pystr" where
  "rstrip_sep p = rev (dropWhile (\<lambda>c. c = 47) (rev p))"

definition with_sep :: "pystr \<Rightarrow> pystr" where
  "with_sep d = (if d \<noteq> [] \<and> last d = 47 then d else d @ [47])"

definition under :: "pystr \<Rightarrow> pystr \<Rightarrow> bool" where
  "under d q = (take (length (with_sep d)) q = with_sep d)"

definition destinsrc :: "pystr \<Rightarrow> pystr \<Rightarrow> bool" where
  "destinsrc src dst = under src (with_sep dst)"

definition copy_tree :: "(pystr \<rightharpoonup> node) \<Rightarrow> pystr \<Rightarrow> pystr \<Rightarrow> (pystr \<rightharpoonup> node)" where
  "copy_tree f src dst =
     (\<lambda>q. if q = src \<or> under src q then f q
          else if q = dst then f src
          else if under dst q then f (with_sep src @ drop (length (with_sep dst)) q)
          else f q)"

definition remove_tree :: "(pystr \<rightharpoonup> node) \<Rightarrow> pystr \<Rightarrow> (pystr \<rightharpoonup> node)" where
  "remove_tree f src = (\<lambda>q. if q = src \<or> under src q then None else f q)"

definition same_file_error :: "pystr \<Rightarrow> pystr \<Rightarrow> pyexc" where
  "same_file_error src dst =
     Exc ShutilError ([39] @ src @ [39] @ ustr '' and '' @ [39] @ dst @ [39] @ ustr '' are the same file'')"

definition shutil_move :: "world \<Rightarrow> pystr \<Rightarrow> pystr \<Rightarrow> world \<times> pyexc option" where
  "shutil_move w src dst =
     (let w1 = w\<lparr>move_calls := Suc (move_calls w)\<rparr>;
          real_dst = (if is_dir w dst then path_join dst [basename (rstrip_sep src)] else dst)
      in if is_dir w dst \<and> src = dst then (w1, None)
         else if is_dir w dst \<and> path_exists w real_dst then
           (w1, Some (Exc ShutilError
                   (ustr ''Destination path '' @ [39] @ real_dst @ [39] @ ustr '' already exists'')))
         else
           (case files w src of
              None \<Rightarrow>
                (w1, Some (Exc FileNotFoundError (ustr ''[Errno 2] No such file or directory'')))
            | Some (File t c) \<Rightarrow>
                (case rename_fault w of
                   None \<Rightarrow> (w1\<lparr>files := (files w)(src := None, real_dst \<mapsto> File t c)\<rparr>, None)
                 | Some e \<Rightarrow>
                     if src = real_dst then (w1, Some (same_file_error src real_dst))
                     else
                       (case copy_fault w of
                          Some (e', None) \<Rightarrow> (w1, Some e')
                        | Some (e', Some partial) \<Rightarrow>
                            (w1\<lparr>files := (files w)(real_dst \<mapsto> partial)\<rparr>, Some e')
                        | None \<Rightarrow>
                            (case unlink_fault w of
                               Some e'' \<Rightarrow>
                                 (w1\<lparr>files := (files w)(real_dst \<mapsto> File t c)\<rparr>, Some e'')
                             | None \<Rightarrow>
                                 (w1\<lparr>files := (files w)(real_dst \<mapsto> File t c, src := None)\<rparr>,
                                  None))))
            | Some (Dir t) \<Rightarrow>
                if destinsrc src dst then
                  (w1, Some (Exc ShutilError
                          (ustr ''Cannot move a directory '' @ [39] @ src @ [39] @
                           ustr '' into itself '' @ [39] @ dst @ [39] @ ustr ''.'')))
                else if is_file w real_dst then
                  (w1, Some (Exc FileExistsError (ustr ''[Errno 17] File exists'')))
                else
                  (case rename_fault w of
                     None \<Rightarrow>
                       (w1\<lparr>files := remove_tree (copy_tree (files w) src real_dst) src\<rparr>, None)
                   | Some e \<Rightarrow>
                       (case copy_fault w of
                          Some (e', left) \<Rightarrow> (w1, Some e')
                        | None \<Rightarrow>
                            (case unlink_fault w of
                               Some e'' \<Rightarrow>
                                 (w1\<lparr>files := copy_tree (files w) src real_dst\<rparr>, Some e'')
                             | None \<Rightarrow>
                                 (w1\<lparr>files := remove_tree (copy_tree (files w) src real_dst) src\<rparr>,
                                  None))))))"


section \<open>RedmineFileOrganizer.move_file\<close>

text \<open>The message of the first return: the source file is not found.\<close>

definition msg_source_missing :: pystr where
  "msg_source_missing =
     [20803, 12501, 12449, 12452, 12523, 12364, 35211, 12388, 12363, 12426, 12414, 12379, 12435]"

text \<open>The name given to the file when its own name is taken in the target folder.\<close>

definition timestamped_name :: "datetime \<Rightarrow> pystr \<Rightarrow> pystr" where
  "timestamped_name t filename =
     (let (base, ext) = splitext filename;
          timestamp = strftime_Ymd_HMS t
      in base @ [95] @ timestamp @ ext)"

definition choose_target_path :: "world \<Rightarrow> pystr \<Rightarrow> pystr \<Rightarrow> pystr" where
  "choose_target_path w source_path target_folder =
     (let filename = basename source_path;
          target_path = path_join target_folder [filename]
      in if path_exists w target_path
         then path_join target_folder [timestamped_name (now w) filename]
         else target_path)"

text \<open>
  The result is the final world and either the exception that leaves the function
  (\<open>os.makedirs\<close> is called outside the \<open>try\<close>) or the returned pair.
\<close>

definition move_file :: "world \<Rightarrow> pystr \<Rightarrow> pystr \<Rightarrow> world \<times> (pyexc + bool \<times> pystr)" where
  "move_file w source_path target_folder =
     (if \<not> path_exists w source_path then (w, Inr (False, msg_source_missing))
      else
        (case os_makedirs w target_folder of
           Inl e \<Rightarrow> (w, Inl e)
         | Inr w1 \<Rightarrow>
             (let target_path = choose_target_path w1 source_path target_folder
              in (case shutil_move w1 source_path target_path of
                    (w2, None) \<Rightarrow> (w2, Inr (True, target_path))
                  | (w2, Some e) \<Rightarrow> (w2, Inr (False, exc_str e))))))"

text \<open>
  A target folder that already holds \<open>report.txt\<close> and, from an earlier collision in the
  same second, \<open>report_20240306_093000.txt\<close>; a third \<open>report.txt\<close> waits in the download
  folder. The clock reads 2024-03-06 09:30:00.
  \<open>denied_world\<close> is the same world with the target folder on another device, so that the
  rename is refused, and with a source that may not be removed.
\<close>

definition clock_0930 :: datetime where
  "clock_0930 = \<lparr>year = 2024, month = 3, day = 6, hour = 9, minute = 30, second = 0\<rparr>"

definition collision_world :: world where
  "collision_world =
     \<lparr>files =
        [ustr ''/data'' \<mapsto> Dir clock_0930,
         ustr ''/data/Acme'' \<mapsto> Dir clock_0930,
         ustr ''/data/Acme/20240306'' \<mapsto> Dir clock_0930,
         ustr ''/data/Acme/20240306/report.txt'' \<mapsto> File clock_0930 (ustr ''first''),
         ustr ''/data/Acme/20240306/report_20240306_093000.txt'' \<mapsto>
           File clock_0930 (ustr ''second''),
         ustr ''/downloads/report.txt'' \<mapsto> File clock_0930 (ustr ''third'')],
      now = clock_0930,
      makedirs_fault = None, rename_fault = None, copy_fault = None, unlink_fault = None,
      move_calls = 0\<rparr>"

definition denied_world :: world where
  "denied_world =
     collision_world
       \<lparr>rename_fault := Some (Exc OSError (ustr ''[Errno 18] Invalid cross-device link'')),
        unlink_fault := Some (Exc OSError (ustr ''[Errno 13] Permission denied''))\<rparr>"


section \<open>DownloadsMonitor._on_file_created\<close>

text \<open>
  The monitor object: the set of paths already handed on, whether a callback is set, and
  the paths the callback has been called with, in order.
\<close>

record monitor =
  processed_files :: "pystr set"
  has_callback :: bool
  callback_calls :: "pystr list"

definition on_file_created :: "world \<Rightarrow> monitor \<Rightarrow> pystr \<Rightarrow> monitor" where
  "on_file_created w m file_path =
     (if file_path \<in> processed_files m then m
      else if \<not> path_exists w file_path then m
      else
        (let m1 = m\<lparr>processed_files := insert file_path (processed_files m)\<rparr>
         in if has_callback m1 then m1\<lparr>callback_calls := callback_calls m1 @ [file_path]\<rparr>
            else m1))"

text \<open>
  Each file event starts a \<open>threading.Timer\<close> that calls \<open>_on_file_created\<close> on a thread of
  its own, and the method takes no lock. A deferred task is therefore a sequence of four
  steps on the shared monitor, one for each statement of the method: the membership test,
  the existence test, the insertion and the callback. \<open>run_two\<close> runs two tasks for the
  same path under a schedule that says, step by step, which of the two moves.
\<close>

datatype pc = AtTest | AtExists | AtAdd | AtCall | Done

fun task_step :: "world \<Rightarrow> pystr \<Rightarrow> monitor \<Rightarrow> pc \<Rightarrow> monitor \<times> pc" where
  "task_step w p m AtTest = (if p \<in> processed_files m then (m, Done) else (m, AtExists))"
| "task_step w p m AtExists = (if \<not> path_exists w p then (m, Done) else (m, AtAdd))"
| "task_step w p m AtAdd = (m\<lparr>processed_files := insert p (processed_files m)\<rparr>, AtCall)"
| "task_step w p m AtCall =
     (if has_callback m then (m\<lparr>callback_calls := callback_calls m @ [p]\<rparr>, Done)
      else (m, Done))"
| "task_step w p m Done = (m, Done)"

fun run_two :: "world \<Rightarrow> pystr \<Rightarrow> bool list \<Rightarrow> monitor \<times> pc \<times> pc \<Rightarrow> monitor \<times> pc \<times> pc" where
  "run_two w p [] s = s"
| "run_two w p (first # sched) (m, c1, c2) =
     (if first then (case task_step w p m c1 of (m', c1') \<Rightarrow> run_two w p sched (m', c1', c2))
      else (case task_step w p m c2 of (m', c2') \<Rightarrow> run_two w p sched (m', c1, c2')))"

definition fresh_monitor :: monitor where
  "fresh_monitor = \<lparr>processed_files = {}, has_callback = True, callback_calls = []\<rparr>"


section \<open>FileCreationHandler (file\_watcher.py)\<close>

text \<open>
  Time is counted in ticks of half a second, the length of every \<open>time.sleep(0.5)\<close>.
  \<open>getsize t\<close> is what \<open>os.path.getsize(filepath)\<close> gives at tick \<open>t\<close>: the size, or \<open>None\<close>
  when it raises \<open>OSError\<close> (the file is gone). \<open>_is_file_ready\<close> returns its verdict and
  the tick at which it returns: it sleeps between the two reads, and returns at once when
  the first read raises.
\<close>

definition is_file_ready :: "(nat \<Rightarrow> nat option) \<Rightarrow> nat \<Rightarrow> bool \<times> nat" where
  "is_file_ready getsize t =
     (case getsize t of
        None \<Rightarrow> (False, t)
      | Some initial_size \<Rightarrow>
          (case getsize (Suc t) of
             None \<Rightarrow> (False, Suc t)
           | Some final_size \<Rightarrow> (initial_size = final_size \<and> final_size > 0, Suc t)))"

text \<open>
  \<open>_process_file\<close>: what it delivers to the callback, the exception that leaves it (only
  the callback can raise one), the number of probes made and the tick at which it ends.
\<close>

record watch_result =
  delivered :: "pystr list"
  raised :: "pyexc option"
  probes :: nat
  finished_at :: nat

definition max_attempts :: nat where
  "max_attempts = 10"

fun probe_loop ::
    "nat \<Rightarrow> (nat \<Rightarrow> nat option) \<Rightarrow> pyexc option \<Rightarrow> pystr \<Rightarrow> nat \<Rightarrow> nat \<Rightarrow> watch_result" where
  "probe_loop 0 getsize callback_raises filepath t n =
     \<lparr>delivered = [], raised = None, probes = n, finished_at = t\<rparr>"
| "probe_loop (Suc k) getsize callback_raises filepath t n =
     (case is_file_ready getsize t of
        (True, t') \<Rightarrow>
          \<lparr>delivered = [filepath], raised = callback_raises, probes = Suc n, finished_at = t'\<rparr>
      | (False, t') \<Rightarrow> probe_loop k getsize callback_raises filepath (Suc t') (Suc n))"

definition process_file ::
    "bool \<Rightarrow> (nat \<Rightarrow> nat option) \<Rightarrow> pyexc option \<Rightarrow> pystr \<Rightarrow> nat \<Rightarrow> watch_result" where
  "process_file isfile getsize callback_raises filepath t =
     (if \<not> isfile then \<lparr>delivered = [], raised = None, probes = 0, finished_at = t\<rparr>
      else probe_loop max_attempts getsize callback_raises filepath t 0)"

text \<open>
  The tick at which the \<open>k\<close>-th probe of a run starts when every earlier probe has failed:
  one sleep after the end of the probe before it.
\<close>

fun probe_time :: "(nat \<Rightarrow> nat option) \<Rightarrow> nat \<Rightarrow> nat \<Rightarrow> nat" where
  "probe_time getsize t 0 = t"
| "probe_time getsize t (Suc k) = probe_time getsize (Suc (snd (is_file_ready getsize t))) k"

text \<open>A file that keeps growing, and a file that has settled at 4096 bytes.\<close>

definition growing :: "nat \<Rightarrow> nat option" where
  "growing t = Some (1024 * Suc t)"

definition settled :: "nat \<Rightarrow> nat option" where
  "settled t = Some 4096"


section \<open>Facts about the matchers and \<open>strip\<close>\<close>

lemma takeWhile_until:
  "\<forall>x\<in>set g. P x \<Longrightarrow> \<not> P c \<Longrightarrow> takeWhile P (g @ c # r) = g"
  by (induction g) auto

lemma dropWhile_until:
  "\<forall>x\<in>set g. P x \<Longrightarrow> \<not> P c \<Longrightarrow> dropWhile P (g @ c # r) = c # r"
  by (induction g) auto

lemma bracket_group_iff:
  "bracket_group s = Some (g, r) \<longleftrightarrow> s = 91 # g @ 93 # r \<and> bracket_text g"
proof
  assume h: "bracket_group s = Some (g, r)"
  then obtain s' where s: "s = 91 # s'"
    by (auto simp: bracket_group_def split: list.splits if_splits)
  from h s obtain c where g: "g = takeWhile (\<lambda>x. x \<noteq> 93) s'" and ne: "g \<noteq> []"
    and d: "dropWhile (\<lambda>x. x \<noteq> 93) s' = c # r"
    by (auto simp: bracket_group_def Let_def split: list.splits if_splits)
  have "c = 93"
    using hd_dropWhile [of "\<lambda>x. x \<noteq> 93" s'] d by simp
  then have "s' = g @ 93 # r"
    using g d by (metis takeWhile_dropWhile_id)
  moreover have "93 \<notin> set g"
    using g by (auto dest: set_takeWhileD)
  ultimately show "s = 91 # g @ 93 # r \<and> bracket_text g"
    using s ne by (simp add: bracket_text_def)
next
  assume "s = 91 # g @ 93 # r \<and> bracket_text g"
  then have s: "s = 91 # g @ 93 # r" and ne: "g \<noteq> []" and nb: "\<forall>x\<in>set g. x \<noteq> 93"
    by (auto simp: bracket_text_def)
  show "bracket_group s = Some (g, r)"
    using ne by (simp add: bracket_group_def s takeWhile_until [OF nb] dropWhile_until [OF nb])
qed

lemma dot_plus_end_iff:
  "dot_plus_end s = Some g \<longleftrightarrow> remainder_text g \<and> (s = g \<or> s = g @ [10])"
proof
  assume h: "dot_plus_end s = Some g"
  then have g: "g = takeWhile (\<lambda>x. x \<noteq> 10) s" and ne: "g \<noteq> []"
    and d: "dropWhile (\<lambda>x. x \<noteq> 10) s = [] \<or> dropWhile (\<lambda>x. x \<noteq> 10) s = [10]"
    by (auto simp: dot_plus_end_def Let_def split: if_splits)
  have "10 \<notin> set g" using g by (auto dest: set_takeWhileD)
  moreover have "s = g \<or> s = g @ [10]"
    using g d by (metis takeWhile_dropWhile_id append_Nil2)
  ultimately show "remainder_text g \<and> (s = g \<or> s = g @ [10])"
    using ne by (simp add: remainder_text_def)
next
  assume a: "remainder_text g \<and> (s = g \<or> s = g @ [10])"
  then have ne: "g \<noteq> []" and nb: "\<forall>x\<in>set g. x \<noteq> 10"
    by (auto simp: remainder_text_def)
  from a consider "s = g" | "s = g @ [10]" by blast
  then show "dot_plus_end s = Some g"
  proof cases
    case 1
    have tw: "takeWhile (\<lambda>x. x \<noteq> 10) g = g" and dw: "dropWhile (\<lambda>x. x \<noteq> 10) g = []"
      using nb by simp_all
    show ?thesis unfolding dot_plus_end_def 1 tw dw using ne by simp
  next
    case 2
    then show ?thesis
      using ne by (simp add: dot_plus_end_def takeWhile_until [OF nb] dropWhile_until [OF nb])
  qed
qed

lemma re_match_pattern3_iff:
  "re_match_pattern3 s = Some (a, b, r) \<longleftrightarrow>
     bracket_text a \<and> bracket_text b \<and> remainder_text r \<and>
     (s = [91] @ a @ [93, 91] @ b @ [93] @ r \<or> s = [91] @ a @ [93, 91] @ b @ [93] @ r @ [10])"
proof -
  have "re_match_pattern3 s = Some (a, b, r) \<longleftrightarrow>
      (\<exists>s1 s2. bracket_group s = Some (a, s1) \<and> bracket_group s1 = Some (b, s2) \<and>
         dot_plus_end s2 = Some r)"
    by (auto simp: re_match_pattern3_def split: option.splits)
  then show ?thesis
    unfolding bracket_group_iff dot_plus_end_iff by auto
qed

lemma re_match_pattern2_iff:
  "re_match_pattern2 s = Some (a, r) \<longleftrightarrow>
     bracket_text a \<and> remainder_text r \<and>
     (s = [91] @ a @ [93] @ r \<or> s = [91] @ a @ [93] @ r @ [10])"
proof -
  have "re_match_pattern2 s = Some (a, r) \<longleftrightarrow>
      (\<exists>s1. bracket_group s = Some (a, s1) \<and> dot_plus_end s1 = Some r)"
    by (auto simp: re_match_pattern2_def split: option.splits)
  then show ?thesis
    unfolding bracket_group_iff dot_plus_end_iff by auto
qed

lemma strip_last: "strip s = [] \<or> \<not> is_space (last (strip s))"
proof (cases "strip s = []")
  case False
  then have "dropWhile is_space (rev (lstrip s)) \<noteq> []"
    by (simp add: strip_def rstrip_def)
  then have "\<not> is_space (hd (dropWhile is_space (rev (lstrip s))))"
    by (rule hd_dropWhile)
  then show ?thesis
    using False by (simp add: strip_def rstrip_def last_rev)
qed simp

lemma strip_no_final_newline: "strip s \<noteq> xs @ [10]"
  using strip_last [of s] by (auto simp: is_space_def)

lemma re_match_pattern3_strip:
  "re_match_pattern3 (strip t) = Some (a, b, r) \<longleftrightarrow> title3 (strip t) a b r"
  unfolding re_match_pattern3_iff title3_def
  using strip_no_final_newline [of t "[91] @ a @ [93, 91] @ b @ [93] @ r"] by auto

lemma re_match_pattern2_strip:
  "re_match_pattern2 (strip t) = Some (a, r) \<longleftrightarrow> title2 (strip t) a r"
  unfolding re_match_pattern2_iff title2_def
  using strip_no_final_newline [of t "[91] @ a @ [93] @ r"] by auto

lemma no_title3_imp: "(\<forall>a b r. \<not> title3 (strip t) a b r) \<Longrightarrow> re_match_pattern3 (strip t) = None"
proof (cases "re_match_pattern3 (strip t)")
  case (Some p)
  assume h: "\<forall>a b r. \<not> title3 (strip t) a b r"
  obtain a b r where "p = (a, b, r)" by (cases p) auto
  with Some have "title3 (strip t) a b r" by (simp add: re_match_pattern3_strip)
  with h show ?thesis by blast
qed simp

lemma no_title2_imp: "(\<forall>a r. \<not> title2 (strip t) a r) \<Longrightarrow> re_match_pattern2 (strip t) = None"
proof (cases "re_match_pattern2 (strip t)")
  case (Some p)
  assume h: "\<forall>a r. \<not> title2 (strip t) a r"
  obtain a r where "p = (a, r)" by (cases p) auto
  with Some have "title2 (strip t) a r" by (simp add: re_match_pattern2_strip)
  with h show ?thesis by blast
qed simp


lemma strip_id:
  assumes "s \<noteq> []" "\<not> is_space (hd s)" "\<not> is_space (last s)"
  shows "strip s = s"
proof -
  have l: "lstrip s = s"
    using assms by (cases s) (simp_all add: lstrip_def)
  have "dropWhile is_space (rev s) = rev s"
    using assms by (cases "rev s") (auto simp: hd_rev [symmetric])
  then show ?thesis
    by (simp add: strip_def rstrip_def l)
qed

lemma strip_bracketed: "strip ([91] @ x @ [93]) = [91] @ x @ [93]"
  by (rule strip_id) (simp_all add: is_space_def)

lemma dot_plus_end_Nil: "dot_plus_end [] = None"
  by (simp add: dot_plus_end_def)

lemma bracket_group_Nil: "bracket_group [] = None"
  by (simp add: bracket_group_def)


lemmas eval_str = ustr_def strip_def lstrip_def rstrip_def is_space_def
lemmas eval_re = re_match_pattern3_def re_match_pattern2_def bracket_group_def dot_plus_end_def


section \<open>Title parsing: the claims\<close>

text \<open>
  Claim C2, as stated, at three titles. \<open>[A][B]x\<close>, a line feed, \<open>y\<close> has the form
  \<open>[A][B]rest\<close> and gives \<open>None\<close>: the dot of \<^verbatim>\<open>(.+)\<close> does not match the line feed.
  \<open>[A][B]\<close> followed by a space has that form too and gives the 2-level result \<open>A\<close>,
  \<open>[B]\<close>: the title is stripped first and no remainder is left. A space followed by
  \<open>[A]x\<close> does not start with a bracket, so as it stands it matches neither pattern, and
  gives a 2-level result: the patterns are matched against the stripped title.
\<close>

theorem parse_ticket_title_grammar_counterexample:
  "bracket_text (ustr ''A'') \<and> bracket_text (ustr ''B'') \<and>
   parse_ticket_title (ustr ''[A][B]x'' @ [10] @ ustr ''y'') = None \<and>
   parse_ticket_title (ustr ''[A][B] '') =
     Some \<lparr>folder1 = ustr ''A'', folder2 = ustr ''[B]'', folder3 = None, levels = 2\<rparr> \<and>
   parse_ticket_title (ustr '' [A]x'') =
     Some \<lparr>folder1 = ustr ''A'', folder2 = ustr ''x'', folder3 = None, levels = 2\<rparr>"
  by (simp add: bracket_text_def parse_ticket_title_def eval_str eval_re)

text \<open>
  Claim C2, amended. The readings are those of the stripped title, with a remainder that
  is not empty and holds no line feed. A title whose stripped form is \<open>[A][B]rest\<close> gives
  a 3-level result with the segments \<open>A\<close>, \<open>B\<close> and \<open>rest.strip()\<close>. The 3-level pattern
  is tried first: only a title whose stripped form has no 3-level reading and is
  \<open>[A]rest\<close> gives a 2-level result, with the segments \<open>A\<close> and \<open>rest.strip()\<close>. A title
  whose stripped form has neither reading gives \<open>None\<close>.
\<close>

theorem parse_ticket_title_grammar:
  "(title3 (strip t) a b r \<longrightarrow>
      parse_ticket_title t =
        Some \<lparr>folder1 = a, folder2 = b, folder3 = Some (strip r), levels = 3\<rparr>) \<and>
   ((\<forall>a' b' r'. \<not> title3 (strip t) a' b' r') \<and> title2 (strip t) a r \<longrightarrow>
      parse_ticket_title t =
        Some \<lparr>folder1 = a, folder2 = strip r, folder3 = None, levels = 2\<rparr>) \<and>
   ((\<forall>a' b' r'. \<not> title3 (strip t) a' b' r') \<and> (\<forall>a' r'. \<not> title2 (strip t) a' r') \<longrightarrow>
      parse_ticket_title t = None)"
proof (intro conjI impI)
  assume "title3 (strip t) a b r"
  then have "re_match_pattern3 (strip t) = Some (a, b, r)"
    by (simp add: re_match_pattern3_strip)
  then show "parse_ticket_title t =
      Some \<lparr>folder1 = a, folder2 = b, folder3 = Some (strip r), levels = 3\<rparr>"
    by (simp add: parse_ticket_title_def)
next
  assume h: "(\<forall>a' b' r'. \<not> title3 (strip t) a' b' r') \<and> title2 (strip t) a r"
  then have "re_match_pattern3 (strip t) = None"
    by (simp add: no_title3_imp)
  moreover from h have "re_match_pattern2 (strip t) = Some (a, r)"
    by (simp add: re_match_pattern2_strip)
  ultimately show "parse_ticket_title t =
      Some \<lparr>folder1 = a, folder2 = strip r, folder3 = None, levels = 2\<rparr>"
    by (simp add: parse_ticket_title_def)
next
  assume h: "(\<forall>a' b' r'. \<not> title3 (strip t) a' b' r') \<and> (\<forall>a' r'. \<not> title2 (strip t) a' r')"
  then have "re_match_pattern3 (strip t) = None" and "re_match_pattern2 (strip t) = None"
    by (simp_all add: no_title3_imp no_title2_imp)
  then show "parse_ticket_title t = None"
    by (simp add: parse_ticket_title_def)
qed


text \<open>The three cases at concrete titles.\<close>

theorem parse_ticket_title_grammar_witness:
  "parse_ticket_title (ustr '' [Nanya][G2128] slow inspection '') =
     Some \<lparr>folder1 = ustr ''Nanya'', folder2 = ustr ''G2128'',
           folder3 = Some (ustr ''slow inspection''), levels = 3\<rparr> \<and>
   parse_ticket_title (ustr ''[Nanya] slow inspection'') =
     Some \<lparr>folder1 = ustr ''Nanya'', folder2 = ustr ''slow inspection'',
           folder3 = None, levels = 2\<rparr> \<and>
   parse_ticket_title (ustr ''slow inspection'') = None"
proof -
  let ?t1 = "ustr '' [Nanya][G2128] slow inspection ''"
  let ?t2 = "ustr ''[Nanya] slow inspection''"
  let ?t3 = "ustr ''slow inspection''"
  have h1: "title3 (strip ?t1) (ustr ''Nanya'') (ustr ''G2128'') (ustr '' slow inspection'')"
    by (simp add: title3_def bracket_text_def remainder_text_def eval_str)
  have m2: "re_match_pattern3 (strip ?t2) = None"
    by (simp add: eval_str eval_re)
  have n2: "\<forall>a' b' r'. \<not> title3 (strip ?t2) a' b' r'"
    using m2 by (simp flip: re_match_pattern3_strip)
  have h2: "title2 (strip ?t2) (ustr ''Nanya'') (ustr '' slow inspection'')"
    by (simp add: title2_def bracket_text_def remainder_text_def eval_str)
  have m3: "re_match_pattern3 (strip ?t3) = None" "re_match_pattern2 (strip ?t3) = None"
    by (simp_all add: eval_str eval_re)
  have n3: "\<forall>a' b' r'. \<not> title3 (strip ?t3) a' b' r'" "\<forall>a' r'. \<not> title2 (strip ?t3) a' r'"
    using m3 by (simp_all flip: re_match_pattern3_strip re_match_pattern2_strip)
  have s: "strip (ustr '' slow inspection'') = ustr ''slow inspection''"
    by (simp add: eval_str)
  from parse_ticket_title_grammar [of ?t1 "ustr ''Nanya''" "ustr ''G2128''" "ustr '' slow inspection''"] h1
  have r1: "parse_ticket_title ?t1 = Some \<lparr>folder1 = ustr ''Nanya'', folder2 = ustr ''G2128'',
           folder3 = Some (ustr ''slow inspection''), levels = 3\<rparr>"
    unfolding s by blast
  from parse_ticket_title_grammar [of ?t2 "ustr ''Nanya''" _ "ustr '' slow inspection''"] n2 h2
  have r2: "parse_ticket_title ?t2 = Some \<lparr>folder1 = ustr ''Nanya'', folder2 = ustr ''slow inspection'',
           folder3 = None, levels = 2\<rparr>"
    unfolding s by blast
  from parse_ticket_title_grammar [of ?t3] n3
  have r3: "parse_ticket_title ?t3 = None"
    by blast
  from r1 r2 r3 show ?thesis by blast
qed

text \<open>
  Claim C10, as stated, at \<open>A = "A"\<close> and a second bracket that holds a line feed: the dot
  of \<^verbatim>\<open>(.+)\<close> does not match the line feed, neither pattern matches, and the result is
  \<open>None\<close> instead of the 2-level result.
\<close>

theorem parse_ticket_title_brackets_only_counterexample:
  "bracket_text (ustr ''A'') \<and> bracket_text [10] \<and>
   parse_ticket_title (ustr ''[A]['' @ [10] @ ustr '']'') \<noteq>
     Some \<lparr>folder1 = ustr ''A'', folder2 = ustr ''['' @ [10] @ ustr '']'',
           folder3 = None, levels = 2\<rparr>"
  by (simp add: bracket_text_def parse_ticket_title_def eval_str eval_re)


text \<open>
  Claim C10, amended. Both patterns need a remainder after the last bracket that is not
  empty. For bracket contents \<open>A\<close> and \<open>B\<close> (not empty, no closing bracket), where \<open>B\<close>
  holds no line feed, \<open>[A][B]\<close> has a 2-level result with the segments \<open>A\<close> and \<open>[B]\<close>,
  the brackets kept; \<open>[A]\<close> gives \<open>None\<close>.
\<close>

theorem parse_ticket_title_brackets_only:
  "bracket_text a \<Longrightarrow>
     (bracket_text b \<and> 10 \<notin> set b \<longrightarrow>
        parse_ticket_title ([91] @ a @ [93, 91] @ b @ [93]) =
          Some \<lparr>folder1 = a, folder2 = [91] @ b @ [93], folder3 = None, levels = 2\<rparr>) \<and>
     parse_ticket_title ([91] @ a @ [93]) = None"
proof (intro conjI impI)
  assume a: "bracket_text a" and b: "bracket_text b \<and> 10 \<notin> set b"
  let ?s = "[91] @ a @ [93, 91] @ b @ [93]"
  have s: "strip ?s = ?s"
    using strip_bracketed [of "a @ [93, 91] @ b"] by simp
  have g1: "bracket_group ?s = Some (a, [91] @ b @ [93])"
    using a by (simp add: bracket_group_iff)
  have g2: "bracket_group ([91] @ b @ [93]) = Some (b, [])"
    using b by (simp add: bracket_group_iff)
  have m3: "re_match_pattern3 ?s = None"
    using g1 g2 by (simp add: re_match_pattern3_def dot_plus_end_Nil)
  have "remainder_text ([91] @ b @ [93])"
    using b by (simp add: remainder_text_def)
  then have "dot_plus_end ([91] @ b @ [93]) = Some ([91] @ b @ [93])"
    by (simp add: dot_plus_end_iff)
  then have m2: "re_match_pattern2 ?s = Some (a, [91] @ b @ [93])"
    using g1 by (simp add: re_match_pattern2_def)
  show "parse_ticket_title ?s =
      Some \<lparr>folder1 = a, folder2 = [91] @ b @ [93], folder3 = None, levels = 2\<rparr>"
    unfolding parse_ticket_title_def s m3 m2 using strip_bracketed [of b] by simp
next
  assume a: "bracket_text a"
  let ?s = "[91] @ a @ [93]"
  have s: "strip ?s = ?s" by (rule strip_bracketed)
  have g1: "bracket_group ?s = Some (a, [])"
    using a by (simp add: bracket_group_iff)
  have "re_match_pattern3 ?s = None" and "re_match_pattern2 ?s = None"
    using g1 by (simp_all add: re_match_pattern3_def re_match_pattern2_def
        bracket_group_Nil dot_plus_end_Nil)
  then show "parse_ticket_title ?s = None"
    unfolding parse_ticket_title_def s by simp
qed


theorem parse_ticket_title_brackets_only_witness:
  "parse_ticket_title (ustr ''[Acme][P100]'') =
     Some \<lparr>folder1 = ustr ''Acme'', folder2 = ustr ''[P100]'', folder3 = None, levels = 2\<rparr> \<and>
   parse_ticket_title (ustr ''[Acme]'') = None"
proof -
  have a: "bracket_text (ustr ''Acme'')"
    by (simp add: bracket_text_def ustr_def)
  have b: "bracket_text (ustr ''P100'') \<and> 10 \<notin> set (ustr ''P100'')"
    by (simp add: bracket_text_def ustr_def)
  from parse_ticket_title_brackets_only [OF a, of "ustr ''P100''"] b
  show ?thesis by (simp add: ustr_def)
qed

lemma zero_pad_2: "zero_pad 2 n = [48 + n div 10 mod 10, 48 + n mod 10]"
proof -
  have "zero_pad (Suc (Suc 0)) n = [48 + n div 10 mod 10, 48 + n mod 10]"
    by simp
  then show ?thesis by (simp only: numeral_2_eq_2)
qed

lemma zero_pad_4:
  "zero_pad 4 n =
     [48 + n div 1000 mod 10, 48 + n div 100 mod 10, 48 + n div 10 mod 10, 48 + n mod 10]"
proof -
  have "zero_pad (Suc (Suc (Suc (Suc 0)))) n =
     [48 + n div 1000 mod 10, 48 + n div 100 mod 10, 48 + n div 10 mod 10, 48 + n mod 10]"
    by (simp add: div_mult2_eq [symmetric])
  moreover have "(4::nat) = Suc (Suc (Suc (Suc 0)))"
    by simp
  ultimately show ?thesis by (simp only:)
qed

lemma date_folder_existing:
  "files w p = Some n \<Longrightarrow> p \<noteq> [] \<Longrightarrow> date_folder w (Some p) = Inr (strftime_Ymd (node_mtime n))"
  by (simp add: date_folder_def path_exists_def getmtime_def)

lemma date_folder_fallback:
  "\<forall>p. fp = Some p \<longrightarrow> p = [] \<or> files w p = None \<Longrightarrow> date_folder w fp = Inr (strftime_Ymd (now w))"
  by (cases fp) (auto simp: date_folder_def path_exists_def)

lemma path_join_plain:
  "base \<noteq> [] \<Longrightarrow> last base \<noteq> 47 \<Longrightarrow> \<forall>s\<in>set segs. s \<noteq> [] \<and> hd s \<noteq> 47 \<and> last s \<noteq> 47 \<Longrightarrow>
     path_join base segs = base @ concat (map (\<lambda>s. 47 # s) segs)"
  by (induction segs arbitrary: base) auto

section \<open>Destination directory: the claims\<close>

lemma path_join_layout:
  "plain_root base \<Longrightarrow> \<forall>s\<in>set segs. plain_segment s \<Longrightarrow>
     path_join base segs = base @ concat (map (\<lambda>s. 47 # s) segs)"
  using path_join_plain [of base segs] by (simp add: plain_root_def plain_segment_def)

lemma plain_date: "plain_segment (strftime_Ymd t)"
  by (simp add: plain_segment_def strftime_Ymd_def zero_pad_2 zero_pad_4)

lemma build_target_path_plain:
  assumes "plain_root base" "plain_segment s1" "plain_segment s2"
    and "date_folder w fp = Inr (strftime_Ymd t)"
  shows "plain_segment s3 \<Longrightarrow>
      build_target_path w base
          (Some \<lparr>folder1 = s1, folder2 = s2, folder3 = Some s3, levels = 3\<rparr>) fp =
        Inr (Some (base @ [47] @ s1 @ [47] @ s2 @ [47] @ s3 @ [47] @ strftime_Ymd t))"
    and "build_target_path w base
          (Some \<lparr>folder1 = s1, folder2 = s2, folder3 = f3, levels = 2\<rparr>) fp =
        Inr (Some (base @ [47] @ s1 @ [47] @ s2 @ [47] @ strftime_Ymd t))"
proof -
  assume s3: "plain_segment s3"
  have "path_join base [s1, s2, s3, strftime_Ymd t] =
      base @ concat (map (\<lambda>s. 47 # s) [s1, s2, s3, strftime_Ymd t])"
    by (rule path_join_layout) (use assms s3 plain_date in simp_all)
  then show "build_target_path w base
          (Some \<lparr>folder1 = s1, folder2 = s2, folder3 = Some s3, levels = 3\<rparr>) fp =
        Inr (Some (base @ [47] @ s1 @ [47] @ s2 @ [47] @ s3 @ [47] @ strftime_Ymd t))"
    by (simp add: build_target_path_def assms(4))
next
  have "path_join base [s1, s2, strftime_Ymd t] =
      base @ concat (map (\<lambda>s. 47 # s) [s1, s2, strftime_Ymd t])"
    by (rule path_join_layout) (use assms plain_date in simp_all)
  then show "build_target_path w base
          (Some \<lparr>folder1 = s1, folder2 = s2, folder3 = f3, levels = 2\<rparr>) fp =
        Inr (Some (base @ [47] @ s1 @ [47] @ s2 @ [47] @ strftime_Ymd t))"
    by (simp add: build_target_path_def assms(4))
qed

lemmas eval_world = door_sensor_world_def path_exists_def getmtime_def date_folder_def
  strftime_Ymd_def

text \<open>
  Claim C4, as stated, at the title \<open>[/etc][cron.d]job\<close>: its first segment starts with a
  slash, \<open>os.path.join\<close> starts the path again there, and the result is not the base folder
  \<open>/data\<close> followed by the segments and the date but \<open>/etc/cron.d/job/20240305\<close>.
\<close>

theorem build_target_path_layout_counterexample:
  "parse_ticket_title (ustr ''[/etc][cron.d]job'') =
     Some \<lparr>folder1 = ustr ''/etc'', folder2 = ustr ''cron.d'', folder3 = Some (ustr ''job''),
           levels = 3\<rparr> \<and>
   build_target_path door_sensor_world (ustr ''/data'')
       (parse_ticket_title (ustr ''[/etc][cron.d]job'')) (Some (ustr ''/downloads/photo.jpg'')) \<noteq>
     Inr (Some (ustr ''/data'' @ [47] @ ustr ''/etc'' @ [47] @ ustr ''cron.d'' @ [47] @
                ustr ''job'' @ [47] @ ustr ''20240305'')) \<and>
   build_target_path door_sensor_world (ustr ''/data'')
       (parse_ticket_title (ustr ''[/etc][cron.d]job'')) (Some (ustr ''/downloads/photo.jpg'')) =
     Inr (Some (ustr ''/etc/cron.d/job/20240305''))"
  by (simp add: build_target_path_def parse_ticket_title_def eval_world eval_str eval_re
      zero_pad_2 zero_pad_4)

text \<open>
  Claim C4, amended. For a base folder and label segments that are not empty and have no
  slash at the end, the segments having none at the start either, \<open>build_target_path\<close>
  returns the base folder followed by a slash and a segment for each of the two or three
  label segments and then for the date folder. The date folder is the \<open>YYYYMMDD\<close> of the
  file's own modification time when the file exists, and of the wall clock when no path is
  given or the path names nothing. The result depends on the world only through that
  modification time: two worlds that give the file the same one give the same directory,
  whatever their clocks and other files are.
\<close>

theorem build_target_path_layout:
  "(plain_root base \<and> plain_segment s1 \<and> plain_segment s2 \<and> files w p = Some n \<and> p \<noteq> [] \<longrightarrow>
      (plain_segment s3 \<longrightarrow>
         build_target_path w base
             (Some \<lparr>folder1 = s1, folder2 = s2, folder3 = Some s3, levels = 3\<rparr>) (Some p) =
           Inr (Some (base @ [47] @ s1 @ [47] @ s2 @ [47] @ s3 @ [47] @
                      strftime_Ymd (node_mtime n)))) \<and>
      build_target_path w base
          (Some \<lparr>folder1 = s1, folder2 = s2, folder3 = f3, levels = 2\<rparr>) (Some p) =
        Inr (Some (base @ [47] @ s1 @ [47] @ s2 @ [47] @ strftime_Ymd (node_mtime n)))) \<and>
   (plain_root base \<and> plain_segment s1 \<and> plain_segment s2 \<and>
    (\<forall>q. fp = Some q \<longrightarrow> q = [] \<or> files w q = None) \<longrightarrow>
      (plain_segment s3 \<longrightarrow>
         build_target_path w base
             (Some \<lparr>folder1 = s1, folder2 = s2, folder3 = Some s3, levels = 3\<rparr>) fp =
           Inr (Some (base @ [47] @ s1 @ [47] @ s2 @ [47] @ s3 @ [47] @ strftime_Ymd (now w)))) \<and>
      build_target_path w base
          (Some \<lparr>folder1 = s1, folder2 = s2, folder3 = f3, levels = 2\<rparr>) fp =
        Inr (Some (base @ [47] @ s1 @ [47] @ s2 @ [47] @ strftime_Ymd (now w)))) \<and>
   (files w p = Some n \<and> p \<noteq> [] \<and> files w' p = Some n' \<and> node_mtime n' = node_mtime n \<longrightarrow>
      build_target_path w' base pt (Some p) = build_target_path w base pt (Some p))"
proof (intro conjI impI)
  assume h: "plain_root base \<and> plain_segment s1 \<and> plain_segment s2 \<and>
    files w p = Some n \<and> p \<noteq> []"
  then have d: "date_folder w (Some p) = Inr (strftime_Ymd (node_mtime n))"
    by (simp add: date_folder_existing)
  show "build_target_path w base
          (Some \<lparr>folder1 = s1, folder2 = s2, folder3 = f3, levels = 2\<rparr>) (Some p) =
        Inr (Some (base @ [47] @ s1 @ [47] @ s2 @ [47] @ strftime_Ymd (node_mtime n)))"
    using h d by (intro build_target_path_plain(2)) simp_all
  assume "plain_segment s3"
  then show "build_target_path w base
          (Some \<lparr>folder1 = s1, folder2 = s2, folder3 = Some s3, levels = 3\<rparr>) (Some p) =
        Inr (Some (base @ [47] @ s1 @ [47] @ s2 @ [47] @ s3 @ [47] @ strftime_Ymd (node_mtime n)))"
    using h d by (intro build_target_path_plain(1)) simp_all
next
  assume h: "plain_root base \<and> plain_segment s1 \<and> plain_segment s2 \<and>
    (\<forall>q. fp = Some q \<longrightarrow> q = [] \<or> files w q = None)"
  then have d: "date_folder w fp = Inr (strftime_Ymd (now w))"
    by (intro date_folder_fallback) simp
  show "build_target_path w base
          (Some \<lparr>folder1 = s1, folder2 = s2, folder3 = f3, levels = 2\<rparr>) fp =
        Inr (Some (base @ [47] @ s1 @ [47] @ s2 @ [47] @ strftime_Ymd (now w)))"
    using h d by (intro build_target_path_plain(2)) simp_all
  assume "plain_segment s3"
  then show "build_target_path w base
          (Some \<lparr>folder1 = s1, folder2 = s2, folder3 = Some s3, levels = 3\<rparr>) fp =
        Inr (Some (base @ [47] @ s1 @ [47] @ s2 @ [47] @ s3 @ [47] @ strftime_Ymd (now w)))"
    using h d by (intro build_target_path_plain(1)) simp_all
next
  assume h: "files w p = Some n \<and> p \<noteq> [] \<and> files w' p = Some n' \<and> node_mtime n' = node_mtime n"
  then have "date_folder w' (Some p) = date_folder w (Some p)"
    by (simp add: date_folder_existing)
  then show "build_target_path w' base pt (Some p) = build_target_path w base pt (Some p)"
    by (cases pt) (simp_all add: build_target_path_def)
qed

text \<open>
  At \<open>door_sensor_world\<close>: a 3-level and a 2-level title for the file that exists, for a
  path that names nothing and for no path, and the same file under another clock.
\<close>

theorem build_target_path_layout_witness:
  "build_target_path door_sensor_world (ustr ''/data'')
       (Some \<lparr>folder1 = ustr ''Acme'', folder2 = ustr ''P100'', folder3 = Some (ustr ''Door''),
              levels = 3\<rparr>) (Some (ustr ''/downloads/photo.jpg'')) =
     Inr (Some (ustr ''/data/Acme/P100/Door/20240305'')) \<and>
   build_target_path door_sensor_world (ustr ''/data'')
       (Some \<lparr>folder1 = ustr ''Acme'', folder2 = ustr ''Door'', folder3 = None, levels = 2\<rparr>)
       (Some (ustr ''/downloads/photo.jpg'')) =
     Inr (Some (ustr ''/data/Acme/Door/20240305'')) \<and>
   build_target_path door_sensor_world (ustr ''/data'')
       (Some \<lparr>folder1 = ustr ''Acme'', folder2 = ustr ''P100'', folder3 = Some (ustr ''Door''),
              levels = 3\<rparr>) (Some (ustr ''/downloads/gone.jpg'')) =
     Inr (Some (ustr ''/data/Acme/P100/Door/20240306'')) \<and>
   build_target_path door_sensor_world (ustr ''/data'')
       (Some \<lparr>folder1 = ustr ''Acme'', folder2 = ustr ''Door'', folder3 = None, levels = 2\<rparr>)
       None =
     Inr (Some (ustr ''/data/Acme/Door/20240306'')) \<and>
   build_target_path (door_sensor_world\<lparr>now := \<lparr>year = 2030, month = 1, day = 1, hour = 0, minute = 0, second = 0\<rparr>\<rparr>)
       (ustr ''/data'') (parse_ticket_title (ustr ''[Acme]Door'')) (Some (ustr ''/downloads/photo.jpg'')) =
     build_target_path door_sensor_world
       (ustr ''/data'') (parse_ticket_title (ustr ''[Acme]Door'')) (Some (ustr ''/downloads/photo.jpg''))"
proof -
  let ?p = "ustr ''/downloads/photo.jpg''"
  let ?t = "\<lparr>year = 2024, month = 3, day = 5, hour = 10, minute = 0, second = 0\<rparr>"
  let ?n = "File ?t (ustr ''jpeg'')"
  let ?w' = "door_sensor_world\<lparr>now := \<lparr>year = 2030, month = 1, day = 1, hour = 0, minute = 0, second = 0\<rparr>\<rparr>"
  have pl: "plain_root (ustr ''/data'')" "plain_segment (ustr ''Acme'')"
      "plain_segment (ustr ''P100'')" "plain_segment (ustr ''Door'')"
    by (simp_all add: plain_root_def plain_segment_def ustr_def)
  have f: "files door_sensor_world ?p = Some ?n \<and> ?p \<noteq> []"
    by (simp add: door_sensor_world_def ustr_def)
  have g: "\<forall>q. Some (ustr ''/downloads/gone.jpg'') = Some q \<longrightarrow> q = [] \<or> files door_sensor_world q = None"
    by (simp add: door_sensor_world_def ustr_def)
  have g': "\<forall>q. (None :: pystr option) = Some q \<longrightarrow> q = [] \<or> files door_sensor_world q = None"
    by simp
  have f': "files door_sensor_world ?p = Some ?n \<and> ?p \<noteq> [] \<and> files ?w' ?p = Some ?n \<and> node_mtime ?n = node_mtime ?n"
    by (simp add: door_sensor_world_def ustr_def)
  have d: "strftime_Ymd (node_mtime ?n) = ustr ''20240305''"
      "strftime_Ymd (now door_sensor_world) = ustr ''20240306''"
    by (simp_all add: strftime_Ymd_def door_sensor_world_def ustr_def zero_pad_2 zero_pad_4)
  note t = build_target_path_layout [where w = door_sensor_world and base = "ustr ''/data''"]
  from t [where p = ?p and n = ?n and ?s1.0 = "ustr ''Acme''" and ?s2.0 = "ustr ''P100''"
      and ?s3.0 = "ustr ''Door''"] f pl
  have r1: "build_target_path door_sensor_world (ustr ''/data'')
       (Some \<lparr>folder1 = ustr ''Acme'', folder2 = ustr ''P100'', folder3 = Some (ustr ''Door''),
              levels = 3\<rparr>) (Some ?p) =
     Inr (Some (ustr ''/data'' @ [47] @ ustr ''Acme'' @ [47] @ ustr ''P100'' @ [47] @
                ustr ''Door'' @ [47] @ strftime_Ymd (node_mtime ?n)))"
    by blast
  from t [where p = ?p and n = ?n and ?s1.0 = "ustr ''Acme''" and ?s2.0 = "ustr ''Door''"
      and ?f3.0 = None] f pl
  have r2: "build_target_path door_sensor_world (ustr ''/data'')
       (Some \<lparr>folder1 = ustr ''Acme'', folder2 = ustr ''Door'', folder3 = None, levels = 2\<rparr>) (Some ?p) =
     Inr (Some (ustr ''/data'' @ [47] @ ustr ''Acme'' @ [47] @ ustr ''Door'' @ [47] @
                strftime_Ymd (node_mtime ?n)))"
    by blast
  from t [where ?s1.0 = "ustr ''Acme''" and ?s2.0 = "ustr ''P100''" and ?s3.0 = "ustr ''Door''"
      and fp = "Some (ustr ''/downloads/gone.jpg'')"] g pl
  have r3: "build_target_path door_sensor_world (ustr ''/data'')
       (Some \<lparr>folder1 = ustr ''Acme'', folder2 = ustr ''P100'', folder3 = Some (ustr ''Door''),
              levels = 3\<rparr>) (Some (ustr ''/downloads/gone.jpg'')) =
     Inr (Some (ustr ''/data'' @ [47] @ ustr ''Acme'' @ [47] @ ustr ''P100'' @ [47] @
                ustr ''Door'' @ [47] @ strftime_Ymd (now door_sensor_world)))"
    by blast
  from t [where ?s1.0 = "ustr ''Acme''" and ?s2.0 = "ustr ''Door''" and ?f3.0 = None
      and fp = None] g' pl
  have r4: "build_target_path door_sensor_world (ustr ''/data'')
       (Some \<lparr>folder1 = ustr ''Acme'', folder2 = ustr ''Door'', folder3 = None, levels = 2\<rparr>) None =
     Inr (Some (ustr ''/data'' @ [47] @ ustr ''Acme'' @ [47] @ ustr ''Door'' @ [47] @
                strftime_Ymd (now door_sensor_world)))"
    by blast
  from t [where p = ?p and n = ?n and w' = ?w' and n' = ?n
      and pt = "parse_ticket_title (ustr ''[Acme]Door'')"] f'
  have r5: "build_target_path ?w' (ustr ''/data'') (parse_ticket_title (ustr ''[Acme]Door'')) (Some ?p) =
     build_target_path door_sensor_world (ustr ''/data'') (parse_ticket_title (ustr ''[Acme]Door'')) (Some ?p)"
    by blast
  show ?thesis
    unfolding r1 r2 r3 r4 r5 d by (simp add: ustr_def)
qed

text \<open>
  Claim C1, as stated: the destination for the title \<open>[Acme][P100]Door sensor broken\<close>, a
  file last modified on 2024-03-05 10:00 and the base folder \<open>/data\<close> is not
  \<open>/data/Acme/P100/20240305\<close>.
\<close>

theorem door_sensor_destination_counterexample:
  "build_target_path door_sensor_world (ustr ''/data'')
       (parse_ticket_title (ustr ''[Acme][P100]Door sensor broken''))
       (Some (ustr ''/downloads/photo.jpg'')) \<noteq>
     Inr (Some (ustr ''/data/Acme/P100/20240305''))"
  by (simp add: build_target_path_def parse_ticket_title_def eval_world eval_str eval_re zero_pad_2 zero_pad_4)

lemma door_sensor_title:
  "parse_ticket_title (ustr ''[Acme][P100]Door sensor broken'') =
     Some \<lparr>folder1 = ustr ''Acme'', folder2 = ustr ''P100'',
           folder3 = Some (ustr ''Door sensor broken''), levels = 3\<rparr>"
  by (simp add: parse_ticket_title_def eval_str eval_re)

text \<open>
  Claim C1, amended. The title has the 3-level reading, whose third segment is the
  remainder \<open>Door sensor broken\<close> (the module's own example files a ticket under the
  folder named by its remainder), so the destination is
  \<open>/data/Acme/P100/Door sensor broken/20240305\<close>.
\<close>

theorem door_sensor_destination:
  "files w p = Some n \<Longrightarrow> p \<noteq> [] \<Longrightarrow>
   node_mtime n = \<lparr>year = 2024, month = 3, day = 5, hour = 10, minute = 0, second = 0\<rparr> \<Longrightarrow>
     build_target_path w (ustr ''/data'')
         (parse_ticket_title (ustr ''[Acme][P100]Door sensor broken'')) (Some p) =
       Inr (Some (ustr ''/data/Acme/P100/Door sensor broken/20240305''))"
proof -
  assume f: "files w p = Some n" "p \<noteq> []"
    and t: "node_mtime n = \<lparr>year = 2024, month = 3, day = 5, hour = 10, minute = 0, second = 0\<rparr>"
  have d: "date_folder w (Some p) = Inr (ustr ''20240305'')"
    using f by (simp add: date_folder_existing t strftime_Ymd_def zero_pad_2 zero_pad_4 ustr_def)
  show ?thesis
    unfolding door_sensor_title build_target_path_def d by (simp add: ustr_def)
qed

theorem door_sensor_destination_witness:
  "build_target_path door_sensor_world (ustr ''/data'')
       (parse_ticket_title (ustr ''[Acme][P100]Door sensor broken''))
       (Some (ustr ''/downloads/photo.jpg'')) =
     Inr (Some (ustr ''/data/Acme/P100/Door sensor broken/20240305''))"
proof -
  let ?n = "File \<lparr>year = 2024, month = 3, day = 5, hour = 10, minute = 0, second = 0\<rparr> (ustr ''jpeg'')"
  have "files door_sensor_world (ustr ''/downloads/photo.jpg'') = Some ?n"
    by (simp add: door_sensor_world_def ustr_def)
  moreover have "ustr ''/downloads/photo.jpg'' \<noteq> []"
    by (simp add: ustr_def)
  moreover have "node_mtime ?n = \<lparr>year = 2024, month = 3, day = 5, hour = 10, minute = 0, second = 0\<rparr>"
    by simp
  ultimately show ?thesis
    by (rule door_sensor_destination)
qed

section \<open>Moving a file: the claims\<close>

lemma foldr_mkdir_missing_keeps:
  "f p = Some n \<Longrightarrow> foldr (mkdir_missing t) ds f p = Some n"
  by (induction ds) (auto simp: mkdir_missing_def)

lemma os_makedirs_keeps:
  assumes "os_makedirs w d = Inr w1"
  shows "files w p = Some n \<Longrightarrow> files w1 p = Some n"
    and "now w1 = now w" and "move_calls w1 = move_calls w"
  using assms
  by (auto simp: os_makedirs_def foldr_mkdir_missing_keeps mkdir_missing_def
      split: option.splits if_splits)

lemma shutil_move_counts:
  "shutil_move w src dst = (w2, r) \<Longrightarrow> move_calls w2 = Suc (move_calls w)"
  by (auto simp: shutil_move_def Let_def
      split: option.splits node.splits prod.splits if_splits)

lemma shutil_move_raises:
  assumes "shutil_move w src dst = (w2, Some e)"
  shows "files w2 src = files w src"
  using assms
  by (auto simp: shutil_move_def Let_def copy_tree_def
      split: option.splits node.splits prod.splits if_splits)

text \<open>
  Claim C8. A move fails when the source path does not exist at the time of the call or
  when \<open>shutil.move\<close> raises. In both cases \<open>move_file\<close> returns \<open>(False, message)\<close> and raises
  nothing: the message is the text of line 651 (``the source file is not found'', written
  here by its code points) in the first case and \<open>str(e)\<close> of the exception raised in the
  second. The entry at the source path is what it was before the call, and \<open>shutil.move\<close>
  has been called once in the second case and not at all in the first: nothing is retried.
  (An exception of \<open>os.makedirs\<close> is not among these cases: it is raised before the \<open>try\<close>
  and leaves \<open>move_file\<close> as an exception.)
\<close>

theorem move_file_failure:
  "(\<not> path_exists w source_path \<longrightarrow>
      move_file w source_path target_folder =
        (w, Inr (False, [20803, 12501, 12449, 12452, 12523, 12364, 35211, 12388, 12363, 12426,
                         12414, 12379, 12435]))) \<and>
   (path_exists w source_path \<and> os_makedirs w target_folder = Inr w1 \<and>
    shutil_move w1 source_path (choose_target_path w1 source_path target_folder) = (w2, Some e) \<longrightarrow>
      move_file w source_path target_folder = (w2, Inr (False, exc_str e)) \<and>
      files w2 source_path = files w source_path \<and>
      move_calls w2 = Suc (move_calls w))"
proof (intro conjI impI)
  assume "\<not> path_exists w source_path"
  then show "move_file w source_path target_folder =
      (w, Inr (False, [20803, 12501, 12449, 12452, 12523, 12364, 35211, 12388, 12363, 12426,
                       12414, 12379, 12435]))"
    by (simp add: move_file_def msg_source_missing_def)
next
  assume h: "path_exists w source_path \<and> os_makedirs w target_folder = Inr w1 \<and>
    shutil_move w1 source_path (choose_target_path w1 source_path target_folder) = (w2, Some e)"
  then show "move_file w source_path target_folder = (w2, Inr (False, exc_str e))"
    by (simp add: move_file_def)
  from h have mk: "os_makedirs w target_folder = Inr w1"
    and mv: "shutil_move w1 source_path (choose_target_path w1 source_path target_folder) =
      (w2, Some e)"
    by simp_all
  from h obtain n where n: "files w source_path = Some n"
    by (auto simp: path_exists_def)
  have "files w1 source_path = Some n"
    using mk n by (rule os_makedirs_keeps(1))
  then show "files w2 source_path = files w source_path"
    using shutil_move_raises [OF mv] n by simp
  show "move_calls w2 = Suc (move_calls w)"
    using shutil_move_counts [OF mv] os_makedirs_keeps(3) [OF mk] by simp
qed

lemma collision_world_makedirs:
  "os_makedirs collision_world (ustr ''/data/Acme/20240306'') = Inr collision_world"
  by (simp add: os_makedirs_def collision_world_def ancestors_def is_file_def mkdir_missing_def
      ustr_def upt_rec)

lemma denied_world_makedirs:
  "os_makedirs denied_world (ustr ''/data/Acme/20240306'') = Inr denied_world"
  by (simp add: os_makedirs_def denied_world_def collision_world_def ancestors_def is_file_def
      mkdir_missing_def ustr_def upt_rec)

lemma report_target:
  "choose_target_path collision_world (ustr ''/downloads/report.txt'') (ustr ''/data/Acme/20240306'') =
     ustr ''/data/Acme/20240306/report_20240306_093000.txt''"
  "choose_target_path denied_world (ustr ''/downloads/report.txt'') (ustr ''/data/Acme/20240306'') =
     ustr ''/data/Acme/20240306/report_20240306_093000.txt''"
  by (simp_all add: choose_target_path_def timestamped_name_def splitext_def rfind_def basename_def
      path_exists_def strftime_Ymd_HMS_def strftime_Ymd_def zero_pad_2 zero_pad_4
      denied_world_def collision_world_def clock_0930_def ustr_def)

lemma denied_world_move:
  "shutil_move denied_world (ustr ''/downloads/report.txt'')
       (ustr ''/data/Acme/20240306/report_20240306_093000.txt'') =
     (denied_world
        \<lparr>files := (files denied_world)
           (ustr ''/data/Acme/20240306/report_20240306_093000.txt'' \<mapsto>
              File clock_0930 (ustr ''third'')),
         move_calls := 1\<rparr>,
      Some (Exc OSError (ustr ''[Errno 13] Permission denied'')))"
  by (simp add: shutil_move_def is_dir_def path_exists_def denied_world_def collision_world_def
      ustr_def)

text \<open>
  In \<open>denied_world\<close>: a source that is not there, and a source that is copied to the target
  folder and then cannot be removed.
\<close>

theorem move_file_failure_witness:
  "move_file denied_world (ustr ''/downloads/gone.txt'') (ustr ''/data/Acme/20240306'') =
     (denied_world,
      Inr (False, [20803, 12501, 12449, 12452, 12523, 12364, 35211, 12388, 12363, 12426,
                   12414, 12379, 12435])) \<and>
   snd (move_file denied_world (ustr ''/downloads/report.txt'') (ustr ''/data/Acme/20240306'')) =
     Inr (False, ustr ''[Errno 13] Permission denied'') \<and>
   files (fst (move_file denied_world (ustr ''/downloads/report.txt'')
                 (ustr ''/data/Acme/20240306'')))
       (ustr ''/downloads/report.txt'') =
     Some (File clock_0930 (ustr ''third'')) \<and>
   move_calls (fst (move_file denied_world (ustr ''/downloads/report.txt'')
                      (ustr ''/data/Acme/20240306''))) = 1"
proof -
  let ?tf = "ustr ''/data/Acme/20240306''"
  let ?src = "ustr ''/downloads/report.txt''"
  let ?e = "Exc OSError (ustr ''[Errno 13] Permission denied'')"
  let ?w2 = "denied_world
        \<lparr>files := (files denied_world)
           (ustr ''/data/Acme/20240306/report_20240306_093000.txt'' \<mapsto>
              File clock_0930 (ustr ''third'')),
         move_calls := 1\<rparr>"
  have gone: "\<not> path_exists denied_world (ustr ''/downloads/gone.txt'')"
    by (simp add: path_exists_def denied_world_def collision_world_def ustr_def)
  have src: "files denied_world ?src = Some (File clock_0930 (ustr ''third''))"
    by (simp add: denied_world_def collision_world_def ustr_def)
  then have ex: "path_exists denied_world ?src"
    by (simp add: path_exists_def)
  have calls: "move_calls denied_world = 0"
    by (simp add: denied_world_def collision_world_def)
  have mv: "shutil_move denied_world ?src (choose_target_path denied_world ?src ?tf) = (?w2, Some ?e)"
    unfolding report_target by (rule denied_world_move)
  from move_file_failure [of denied_world "ustr ''/downloads/gone.txt''" ?tf] gone
  have r1: "move_file denied_world (ustr ''/downloads/gone.txt'') ?tf =
      (denied_world,
       Inr (False, [20803, 12501, 12449, 12452, 12523, 12364, 35211, 12388, 12363, 12426,
                    12414, 12379, 12435]))"
    by blast
  from move_file_failure [of denied_world ?src ?tf denied_world ?w2 ?e]
    ex denied_world_makedirs mv
  have r2: "move_file denied_world ?src ?tf = (?w2, Inr (False, exc_str ?e)) \<and>
      files ?w2 ?src = files denied_world ?src \<and>
      move_calls ?w2 = Suc (move_calls denied_world)"
    by blast
  from r2 have m: "move_file denied_world ?src ?tf = (?w2, Inr (False, exc_str ?e))"
    and f: "files ?w2 ?src = files denied_world ?src"
    and c: "move_calls ?w2 = Suc (move_calls denied_world)"
    by blast+
  show ?thesis
    unfolding m fst_conv snd_conv f c using r1 src calls by simp
qed

lemma collision_world_move:
  "shutil_move collision_world (ustr ''/downloads/report.txt'')
       (ustr ''/data/Acme/20240306/report_20240306_093000.txt'') =
     (collision_world
        \<lparr>files := (files collision_world)
           (ustr ''/downloads/report.txt'' := None,
            ustr ''/data/Acme/20240306/report_20240306_093000.txt'' \<mapsto>
              File clock_0930 (ustr ''third'')),
         move_calls := 1\<rparr>, None)"
  by (simp add: shutil_move_def is_dir_def is_file_def path_exists_def collision_world_def ustr_def)

lemma collision_world_move_file:
  "move_file collision_world (ustr ''/downloads/report.txt'') (ustr ''/data/Acme/20240306'') =
     (collision_world
        \<lparr>files := (files collision_world)
           (ustr ''/downloads/report.txt'' := None,
            ustr ''/data/Acme/20240306/report_20240306_093000.txt'' \<mapsto>
              File clock_0930 (ustr ''third'')),
         move_calls := 1\<rparr>,
      Inr (True, ustr ''/data/Acme/20240306/report_20240306_093000.txt''))"
proof -
  have "path_exists collision_world (ustr ''/downloads/report.txt'')"
    by (simp add: path_exists_def collision_world_def ustr_def)
  then show ?thesis
    by (simp add: move_file_def collision_world_makedirs report_target collision_world_move Let_def)
qed

text \<open>
  Claim C3 at \<open>collision_world\<close>. The name \<open>report.txt\<close> is taken in the target folder, so
  the file is moved to \<open>report_20240306_093000.txt\<close>. That path is not checked: the file
  that was there (content \<open>second\<close>) is replaced by the moved one (content \<open>third\<close>), and
  \<open>move_file\<close> reports success.
\<close>

theorem move_file_second_collision:
  "files collision_world (ustr ''/data/Acme/20240306/report_20240306_093000.txt'') =
     Some (File clock_0930 (ustr ''second'')) \<and>
   snd (move_file collision_world (ustr ''/downloads/report.txt'') (ustr ''/data/Acme/20240306'')) =
     Inr (True, ustr ''/data/Acme/20240306/report_20240306_093000.txt'') \<and>
   files (fst (move_file collision_world (ustr ''/downloads/report.txt'')
                 (ustr ''/data/Acme/20240306'')))
       (ustr ''/data/Acme/20240306/report_20240306_093000.txt'') =
     Some (File clock_0930 (ustr ''third''))"
  unfolding collision_world_move_file
  by (simp add: collision_world_def ustr_def)

text \<open>
  What does hold at a collision, for a regular file that is not itself the file in the
  target folder: the file goes to the name with the timestamp before the extension, that
  path differs from the original target, and the entry at the original target stays as it
  was.
\<close>

lemma splitext_concat: "splitext p = (b, e) \<Longrightarrow> b @ e = p"
  by (auto simp: splitext_def Let_def split: if_splits)

lemma length_zero_pad: "length (zero_pad w n) = w"
  by (induction w arbitrary: n) simp_all

lemma length_timestamped_name: "length (timestamped_name t f) = length f + 16"
proof -
  obtain b e where s: "splitext f = (b, e)" by (cases "splitext f")
  then have "length b + length e = length f"
    using splitext_concat [OF s] by (metis length_append)
  then show ?thesis
    by (simp add: timestamped_name_def s strftime_Ymd_HMS_def strftime_Ymd_def length_zero_pad)
qed

lemma hd_timestamped_name: "f = [] \<or> hd f \<noteq> 47 \<Longrightarrow> hd (timestamped_name t f) \<noteq> 47"
proof -
  assume h: "f = [] \<or> hd f \<noteq> 47"
  obtain b e where s: "splitext f = (b, e)" by (cases "splitext f")
  have c: "b @ e = f" by (rule splitext_concat [OF s])
  show ?thesis
  proof (cases b)
    case Nil
    then show ?thesis by (simp add: timestamped_name_def s)
  next
    case (Cons x xs)
    with c h have "x \<noteq> 47" by auto
    with Cons show ?thesis by (simp add: timestamped_name_def s)
  qed
qed

lemma basename_no_sep: "47 \<notin> set (basename p)"
  by (auto simp: basename_def dest: set_takeWhileD)

lemma hd_basename: "basename p = [] \<or> hd (basename p) \<noteq> 47"
  using basename_no_sep [of p] by (cases "basename p") auto

lemma path_join_single:
  "x = [] \<or> hd x \<noteq> 47 \<Longrightarrow>
     path_join d [x] = (if d = [] \<or> last d = 47 then d else d @ [47]) @ x"
  by auto

lemma length_path_join_single: "x = [] \<or> hd x \<noteq> 47 \<Longrightarrow> length d \<le> length (path_join d [x])"
  by auto

lemma choose_target_path_collision:
  assumes "path_exists w (path_join tf [basename src])"
  shows "choose_target_path w src tf = path_join tf [timestamped_name (now w) (basename src)]"
    and "length (choose_target_path w src tf) = length (path_join tf [basename src]) + 16"
proof -
  show c: "choose_target_path w src tf = path_join tf [timestamped_name (now w) (basename src)]"
    using assms by (simp add: choose_target_path_def)
  show "length (choose_target_path w src tf) = length (path_join tf [basename src]) + 16"
    unfolding c
    by (simp only: path_join_single [OF hd_basename]
        path_join_single [OF disjI2 [OF hd_timestamped_name [OF hd_basename]]] length_append
        length_timestamped_name)
qed

lemma shutil_move_done:
  assumes "shutil_move w src dst = (w2, None)" and "is_file w src"
    and "q \<noteq> src" and "length q < length dst"
  shows "files w2 q = files w q"
proof -
  have b: "basename (rstrip_sep src) = [] \<or> hd (basename (rstrip_sep src)) \<noteq> 47"
    by (rule hd_basename)
  have "length dst \<le> length (path_join dst [basename (rstrip_sep src)])"
    by (rule length_path_join_single [OF b])
  with assms(4) have "q \<noteq> path_join dst [basename (rstrip_sep src)]" and "q \<noteq> dst"
    by auto
  with assms(1,2,3) show ?thesis
    by (auto simp: shutil_move_def Let_def is_file_def
        split: if_splits option.splits node.splits prod.splits)
qed

lemma move_file_collision_renames:
  assumes src: "is_file w src"
    and mk: "os_makedirs w tf = Inr w1"
    and taken: "files w (path_join tf [basename src]) = Some n0"
    and other: "src \<noteq> path_join tf [basename src]"
    and ok: "move_file w src tf = (w2, Inr (True, p))"
  shows "p = path_join tf [timestamped_name (now w) (basename src)]"
    and "p \<noteq> path_join tf [basename src]"
    and "files w2 (path_join tf [basename src]) = Some n0"
proof -
  let ?t = "path_join tf [basename src]"
  from src obtain t c where f: "files w src = Some (File t c)"
    by (auto simp: is_file_def split: option.splits node.splits)
  then have ex0: "path_exists w src"
    by (simp add: path_exists_def)
  have "files w1 src = Some (File t c)"
    using mk f by (rule os_makedirs_keeps(1))
  then have src1: "is_file w1 src"
    by (simp add: is_file_def)
  have t1: "files w1 ?t = Some n0"
    using mk taken by (rule os_makedirs_keeps(1))
  then have ex: "path_exists w1 ?t"
    by (simp add: path_exists_def)
  have now: "now w1 = now w"
    by (rule os_makedirs_keeps(2) [OF mk])
  from ok ex0 mk have p: "p = choose_target_path w1 src tf"
    and mv: "shutil_move w1 src (choose_target_path w1 src tf) = (w2, None)"
    by (auto simp: move_file_def Let_def split: prod.splits option.splits)
  show "p = path_join tf [timestamped_name (now w) (basename src)]"
    using choose_target_path_collision(1) [OF ex] p now by simp
  have len: "length p = length ?t + 16"
    using choose_target_path_collision(2) [OF ex] p by simp
  then show "p \<noteq> ?t" by auto
  have "files w2 ?t = files w1 ?t"
    using other len p by (intro shutil_move_done [OF mv src1]) auto
  with t1 show "files w2 ?t = Some n0" by simp
qed


section \<open>Claiming a path: the claims\<close>

text \<open>
  Claim C5. For a path that exists and is not in the processed set, the first call of
  \<open>_on_file_created\<close> puts the path into the set and hands it to the callback (a callback
  being set); a second call right after it, whatever has happened to the files in
  between, changes nothing and calls nothing.
\<close>

theorem on_file_created_claims_once:
  "P \<notin> processed_files m \<Longrightarrow> path_exists w P \<Longrightarrow> has_callback m \<Longrightarrow>
     callback_calls (on_file_created w m P) = callback_calls m @ [P] \<and>
     P \<in> processed_files (on_file_created w m P) \<and>
     on_file_created w' (on_file_created w m P) P = on_file_created w m P"
  by (simp add: on_file_created_def Let_def)

theorem on_file_created_claims_once_witness:
  "callback_calls
     (on_file_created door_sensor_world fresh_monitor (ustr ''/downloads/photo.jpg'')) =
     [ustr ''/downloads/photo.jpg''] \<and>
   on_file_created door_sensor_world
     (on_file_created door_sensor_world fresh_monitor (ustr ''/downloads/photo.jpg''))
     (ustr ''/downloads/photo.jpg'') =
     on_file_created door_sensor_world fresh_monitor (ustr ''/downloads/photo.jpg'')"
proof -
  let ?P = "ustr ''/downloads/photo.jpg''"
  have a: "?P \<notin> processed_files fresh_monitor" and c: "has_callback fresh_monitor"
    by (simp_all add: fresh_monitor_def)
  have b: "path_exists door_sensor_world ?P"
    by (simp add: path_exists_def door_sensor_world_def ustr_def)
  from on_file_created_claims_once [OF a b c, of door_sensor_world]
  show ?thesis by (simp add: fresh_monitor_def)
qed

text \<open>One task running alone is the method itself.\<close>

lemma task_alone:
  "run_two w P [True, True, True, True] (m, AtTest, c2) = (on_file_created w m P, Done, c2)"
  by (simp add: on_file_created_def Let_def)

lemma run_two_after_insert:
  "P \<in> processed_files m \<Longrightarrow> has_callback m \<Longrightarrow> c1 = AtCall \<or> c1 = Done \<Longrightarrow>
   c2 = AtTest \<or> c2 = Done \<Longrightarrow> run_two w P sched (m, c1, c2) = (m', c1', c2') \<Longrightarrow>
     callback_calls m' = callback_calls m @ (if c1 = AtCall \<and> c1' = Done then [P] else []) \<and>
     (c1 = Done \<longrightarrow> c1' = Done)"
proof (induction sched arbitrary: m c1 c2)
  case Nil
  then show ?case by auto
next
  case (Cons first sched)
  show ?case
  proof (cases first)
    case True
    from Cons.prems(3) show ?thesis
    proof
      assume c1: "c1 = AtCall"
      let ?m = "m\<lparr>callback_calls := callback_calls m @ [P]\<rparr>"
      from Cons.prems(5) True c1 Cons.prems(2)
      have r: "run_two w P sched (?m, Done, c2) = (m', c1', c2')" by simp
      have "callback_calls m' = callback_calls ?m @ (if Done = AtCall \<and> c1' = Done then [P] else []) \<and>
          (Done = Done \<longrightarrow> c1' = Done)"
        by (rule Cons.IH [OF _ _ _ Cons.prems(4) r]) (use Cons.prems in simp_all)
      then show ?thesis using c1 by simp
    next
      assume c1: "c1 = Done"
      from Cons.prems(5) True c1
      have r: "run_two w P sched (m, Done, c2) = (m', c1', c2')" by simp
      have "callback_calls m' = callback_calls m @ (if Done = AtCall \<and> c1' = Done then [P] else []) \<and>
          (Done = Done \<longrightarrow> c1' = Done)"
        by (rule Cons.IH [OF Cons.prems(1,2) _ Cons.prems(4) r]) simp
      then show ?thesis using c1 by simp
    qed
  next
    case False
    from Cons.prems(4,5) False Cons.prems(1)
    have r: "run_two w P sched (m, c1, Done) = (m', c1', c2')" by auto
    have "callback_calls m' = callback_calls m @ (if c1 = AtCall \<and> c1' = Done then [P] else []) \<and>
        (c1 = Done \<longrightarrow> c1' = Done)"
      by (rule Cons.IH [OF Cons.prems(1,2,3) _ r]) simp
    then show ?thesis .
  qed
qed

text \<open>
  Claim C9 at two tasks for the same path that take turns step by step, as two timers
  that fire together can: both pass the membership test before either inserts the path,
  and the callback is called twice with it.
\<close>

theorem concurrent_triggers_call_twice:
  "run_two door_sensor_world (ustr ''/downloads/photo.jpg'')
       [True, False, True, False, True, False, True, False] (fresh_monitor, AtTest, AtTest) =
     (\<lparr>processed_files = {ustr ''/downloads/photo.jpg''}, has_callback = True,
       callback_calls = [ustr ''/downloads/photo.jpg'', ustr ''/downloads/photo.jpg'']\<rparr>,
      Done, Done)"
  by (simp add: fresh_monitor_def path_exists_def door_sensor_world_def ustr_def)

text \<open>
  The set does its work when the steps fall in order: once the first task has inserted the
  path before the second one tests it, the callback is called once, however the remaining
  steps interleave.
\<close>

lemma ordered_triggers_once:
  "P \<notin> processed_files m \<Longrightarrow> path_exists w P \<Longrightarrow> has_callback m \<Longrightarrow>
   run_two w P (True # True # True # sched) (m, AtTest, AtTest) = (m', Done, Done) \<Longrightarrow>
     callback_calls m' = callback_calls m @ [P]"
proof -
  assume a: "P \<notin> processed_files m" "path_exists w P" "has_callback m"
    and r: "run_two w P (True # True # True # sched) (m, AtTest, AtTest) = (m', Done, Done)"
  let ?m = "m\<lparr>processed_files := insert P (processed_files m)\<rparr>"
  from r a have r': "run_two w P sched (?m, AtCall, AtTest) = (m', Done, Done)"
    by simp
  have "callback_calls m' = callback_calls ?m @ (if AtCall = AtCall \<and> Done = Done then [P] else []) \<and>
      (AtCall = Done \<longrightarrow> Done = Done)"
    by (rule run_two_after_insert [OF _ _ _ _ r']) (use a in simp_all)
  then show ?thesis by simp
qed


section \<open>The settle probe: the claims\<close>

text \<open>
  Claim C6. \<open>_is_file_ready\<close> returns true exactly when both size reads succeed, give the
  same size, and that size is positive. A read of zero bytes, or a read that raises, makes
  it return false.
\<close>

theorem is_file_ready_iff:
  "(fst (is_file_ready getsize t) \<longleftrightarrow>
      (\<exists>s. getsize t = Some s \<and> getsize (Suc t) = Some s \<and> 0 < s)) \<and>
   (getsize t = Some 0 \<or> getsize (Suc t) = Some 0 \<longrightarrow> \<not> fst (is_file_ready getsize t)) \<and>
   (getsize t = None \<or> getsize (Suc t) = None \<longrightarrow> \<not> fst (is_file_ready getsize t))"
  by (auto simp: is_file_ready_def split: option.splits)

theorem is_file_ready_iff_witness:
  "fst (is_file_ready settled 0) \<and>
   \<not> fst (is_file_ready (\<lambda>t. Some 0) 0) \<and>
   \<not> fst (is_file_ready (\<lambda>t. if t = 0 then Some 4096 else None) 0)"
proof -
  have "\<exists>s. settled 0 = Some s \<and> settled (Suc 0) = Some s \<and> 0 < s"
    by (simp add: settled_def)
  with is_file_ready_iff [of settled 0] have r1: "fst (is_file_ready settled 0)"
    by blast
  have "(\<lambda>t::nat. Some (0::nat)) 0 = Some 0 \<or> (\<lambda>t::nat. Some (0::nat)) (Suc 0) = Some 0"
    by simp
  with is_file_ready_iff [of "\<lambda>t. Some 0" 0]
  have r2: "\<not> fst (is_file_ready (\<lambda>t. Some 0) 0)"
    by blast
  have "(\<lambda>t::nat. if t = 0 then Some (4096::nat) else None) 0 = None \<or>
      (\<lambda>t::nat. if t = 0 then Some (4096::nat) else None) (Suc 0) = None"
    by simp
  with is_file_ready_iff [of "\<lambda>t. if t = 0 then Some 4096 else None" 0]
  have r3: "\<not> fst (is_file_ready (\<lambda>t. if t = 0 then Some 4096 else None) 0)"
    by blast
  from r1 r2 r3 show ?thesis by blast
qed

lemma probe_loop_all_fail:
  "\<forall>j<k. \<not> fst (is_file_ready g (probe_time g t j)) \<Longrightarrow>
     probe_loop k g cb p t n =
       \<lparr>delivered = [], raised = None, probes = n + k, finished_at = probe_time g t k\<rparr>"
proof (induction k arbitrary: t n)
  case 0
  then show ?case by simp
next
  case (Suc k)
  from Suc.prems have "\<not> fst (is_file_ready g (probe_time g t 0))"
    by blast
  then have f: "is_file_ready g t = (False, snd (is_file_ready g t))"
    by (cases "is_file_ready g t") simp
  have "\<forall>j<k. \<not> fst (is_file_ready g (probe_time g (Suc (snd (is_file_ready g t))) j))"
  proof (intro allI impI)
    fix j assume "j < k"
    then have "Suc j < Suc k" by simp
    with Suc.prems have "\<not> fst (is_file_ready g (probe_time g t (Suc j)))"
      by blast
    then show "\<not> fst (is_file_ready g (probe_time g (Suc (snd (is_file_ready g t))) j))"
      by simp
  qed
  then have "probe_loop k g cb p (Suc (snd (is_file_ready g t))) (Suc n) =
      \<lparr>delivered = [], raised = None, probes = Suc n + k,
       finished_at = probe_time g (Suc (snd (is_file_ready g t))) k\<rparr>"
    by (rule Suc.IH)
  moreover have "probe_loop (Suc k) g cb p t n =
      probe_loop k g cb p (Suc (snd (is_file_ready g t))) (Suc n)"
    by (subst probe_loop.simps(2), subst f) simp
  ultimately show ?case by simp
qed

lemma probe_loop_probes_le: "probes (probe_loop k g cb p t n) \<le> n + k"
proof (induction k arbitrary: t n)
  case 0
  then show ?case by simp
next
  case (Suc k)
  show ?case
  proof (cases "is_file_ready g t")
    case (Pair ready t')
    show ?thesis
    proof (cases ready)
      case True
      with Pair show ?thesis by simp
    next
      case False
      with Pair have "probe_loop (Suc k) g cb p t n = probe_loop k g cb p (Suc t') (Suc n)"
        by simp
      with Suc.IH [of "Suc t'" "Suc n"] show ?thesis by simp
    qed
  qed
qed

text \<open>
  Claim C7. When the probe fails at each of the 10 attempts, \<open>_process_file\<close> calls the
  callback with nothing, raises nothing and returns: the file is dropped. The attempts
  are one sleep apart (the run ends at the tick \<open>probe_time\<close> gives after 10 failed probes),
  and no run makes more than 10 probes.
\<close>

theorem process_file_abandons:
  "(isfile \<and> (\<forall>k<10. \<not> fst (is_file_ready getsize (probe_time getsize t k))) \<longrightarrow>
      process_file isfile getsize callback_raises filepath t =
        \<lparr>delivered = [], raised = None, probes = 10,
         finished_at = probe_time getsize t 10\<rparr>) \<and>
   probes (process_file isfile getsize callback_raises filepath t) \<le> 10"
proof (intro conjI impI)
  assume h: "isfile \<and> (\<forall>k<10. \<not> fst (is_file_ready getsize (probe_time getsize t k)))"
  then have "probe_loop 10 getsize callback_raises filepath t 0 =
      \<lparr>delivered = [], raised = None, probes = 0 + 10, finished_at = probe_time getsize t 10\<rparr>"
    by (intro probe_loop_all_fail) simp
  with h show "process_file isfile getsize callback_raises filepath t =
      \<lparr>delivered = [], raised = None, probes = 10, finished_at = probe_time getsize t 10\<rparr>"
    by (simp add: process_file_def max_attempts_def)
next
  show "probes (process_file isfile getsize callback_raises filepath t) \<le> 10"
    using probe_loop_probes_le [of 10 getsize callback_raises filepath t 0]
    by (simp add: process_file_def max_attempts_def)
qed

lemma growing_never_ready: "\<not> fst (is_file_ready growing t)"
  by (simp add: is_file_ready_def growing_def)

lemma growing_probe_time: "probe_time growing t k = t + 2 * k"
  by (induction k arbitrary: t) (simp_all add: is_file_ready_def growing_def)

theorem process_file_abandons_witness:
  "process_file True growing (Some (Exc OSError (ustr ''callback failed'')))
       (ustr ''/watch/big.iso'') 0 =
     \<lparr>delivered = [], raised = None, probes = 10, finished_at = 20\<rparr> \<and>
   probes (process_file True settled None (ustr ''/watch/small.txt'') 0) \<le> 10"
proof -
  have h: "True \<and> (\<forall>k<10. \<not> fst (is_file_ready growing (probe_time growing 0 k)))"
    by (simp add: growing_never_ready)
  from process_file_abandons [of True growing 0 "Some (Exc OSError (ustr ''callback failed''))"
      "ustr ''/watch/big.iso''"] h
  have "process_file True growing (Some (Exc OSError (ustr ''callback failed'')))
       (ustr ''/watch/big.iso'') 0 =
     \<lparr>delivered = [], raised = None, probes = 10, finished_at = probe_time growing 0 10\<rparr>"
    by blast
  moreover from process_file_abandons [of True settled 0 None "ustr ''/watch/small.txt''"]
  have "probes (process_file True settled None (ustr ''/watch/small.txt'') 0) \<le> 10"
    by blast
  ultimately show ?thesis
    by (simp add: growing_probe_time)
qed

end
